theory Spec2Isabelle
  imports Main "HOL-Library.Multiset" "HOL-Library.Sublist"
begin

section \<open>Strings\<close>

text \<open>
  A Go string is a sequence of bytes; it is modelled as a \<^typ>\<open>string\<close>, one
  \<^typ>\<open>char\<close> per byte, read as UTF-8 where the library reads it so. A rune is an
  \<^typ>\<open>int\<close>. \<open>strings.ToLower\<close> and \<open>strings.EqualFold\<close> are modelled as the
  library computes them: a fast path on ASCII bytes, and otherwise rune by rune through
  the case tables of package \<open>unicode\<close>. Those tables are data of the Go distribution
  and are a parameter of the model, so every property below holds for every version of
  them.
\<close>

type_synonym rune = int

text \<open>
  The tables of package \<open>unicode\<close>: \<open>To_lower r\<close> is \<open>unicode.To(unicode.LowerCase, r)\<close>,
  read from \<open>CaseRanges\<close> for a rune above \<open>MaxASCII\<close>; \<open>fold_orbit r\<close> lists the
  successive values of \<open>unicode.SimpleFold\<close> from \<open>r\<close> on, that is \<open>SimpleFold(r)\<close>,
  \<open>SimpleFold(SimpleFold(r))\<close> and so on until \<open>r\<close> comes back, \<open>r\<close> being the last.
\<close>

record Unicode =
  To_lower :: "rune \<Rightarrow> rune"
  fold_orbit :: "rune \<Rightarrow> rune list"

definition RuneError :: rune where
  "RuneError = 0xFFFD"

definition is_ascii :: "char \<Rightarrow> bool" where
  "is_ascii c = ((of_char c :: nat) < 0x80)"

definition is_upper :: "char \<Rightarrow> bool" where
  "is_upper c = (65 \<le> (of_char c :: nat) \<and> (of_char c :: nat) \<le> 90)"

definition is_lower :: "char \<Rightarrow> bool" where
  "is_lower c = (97 \<le> (of_char c :: nat) \<and> (of_char c :: nat) \<le> 122)"

definition is_digit :: "char \<Rightarrow> bool" where
  "is_digit c = (48 \<le> (of_char c :: nat) \<and> (of_char c :: nat) \<le> 57)"

text \<open>
  \<open>utf8.DecodeRuneInString\<close>: the first rune of a string and its width in bytes. The
  first byte fixes the width and the range accepted for the second byte; a byte that
  starts no valid sequence is \<open>RuneError\<close> of width 1.
\<close>

fun DecodeRuneInString :: "string \<Rightarrow> rune \<times> nat" where
  "DecodeRuneInString [] = (RuneError, 0)"
| "DecodeRuneInString (c0 # s) =
     (let s0 = (of_char c0 :: nat) in
      if s0 < 0x80 then (int s0, 1)
      else if s0 < 0xC2 \<or> 0xF4 < s0 then (RuneError, 1)
      else
        (let sz = (if s0 < 0xE0 then 2 else if s0 < 0xF0 then 3 else (4 :: nat));
             lo = (if s0 = 0xE0 then 0xA0 else if s0 = 0xF0 then 0x90 else (0x80 :: nat));
             hi = (if s0 = 0xED then 0x9F else if s0 = 0xF4 then 0x8F else (0xBF :: nat))
         in if length (c0 # s) < sz then (RuneError, 1)
            else
              (let s1 = (of_char (s ! 0) :: nat) in
               if s1 < lo \<or> hi < s1 then (RuneError, 1)
               else if sz \<le> 2 then (int ((s0 mod 32) * 64 + s1 mod 64), 2)
               else
                 (let s2 = (of_char (s ! 1) :: nat) in
                  if s2 < 0x80 \<or> 0xBF < s2 then (RuneError, 1)
                  else if sz \<le> 3
                    then (int ((s0 mod 16) * 4096 + (s1 mod 64) * 64 + s2 mod 64), 3)
                  else
                    (let s3 = (of_char (s ! 2) :: nat) in
                     if s3 < 0x80 \<or> 0xBF < s3 then (RuneError, 1)
                     else (int ((s0 mod 8) * 262144 + (s1 mod 64) * 4096 +
                                (s2 mod 64) * 64 + s3 mod 64), 4))))))"

text \<open>The runes that \<open>for _, r := range s\<close> yields.\<close>

function runes :: "string \<Rightarrow> rune list" where
  "runes [] = []"
| "runes (c # s) =
     fst (DecodeRuneInString (c # s)) # runes (drop (snd (DecodeRuneInString (c # s)) - 1) s)"
  by pat_completeness auto
termination
  by (relation "measure length") simp_all

text \<open>
  \<open>utf8.AppendRune\<close>, the bytes \<open>Builder.WriteRune\<close> writes: a rune out of range or a
  surrogate is written as \<open>RuneError\<close>.
\<close>

definition byte :: "int \<Rightarrow> char" where
  "byte x = char_of (nat x)"

definition AppendRune :: "rune \<Rightarrow> string" where
  "AppendRune r =
     (if 0 \<le> r \<and> r < 0x80 then [byte r]
      else if 0 \<le> r \<and> r \<le> 0x7FF then [byte (0xC0 + r div 64), byte (0x80 + r mod 64)]
      else
        (let r' = (if r < 0 \<or> 0x10FFFF < r \<or> (0xD800 \<le> r \<and> r \<le> 0xDFFF) then RuneError else r)
         in if r' \<le> 0xFFFF
            then [byte (0xE0 + r' div 4096), byte (0x80 + (r' div 64) mod 64),
                  byte (0x80 + r' mod 64)]
            else [byte (0xF0 + r' div 262144), byte (0x80 + (r' div 4096) mod 64),
                  byte (0x80 + (r' div 64) mod 64), byte (0x80 + r' mod 64)]))"

text \<open>
  \<open>strings.Map\<close>: every rune of the string is replaced by the encoding of its image, and
  dropped when the image is negative. The library copies an unchanged prefix as it is; a
  valid sequence is the encoding of its rune, and an invalid byte counts as changed and
  is written as \<open>RuneError\<close>, so the result is the same.
\<close>

definition Map :: "(rune \<Rightarrow> rune) \<Rightarrow> string \<Rightarrow> string" where
  "Map mapping s =
     concat (map (\<lambda>c. let r = mapping c in if 0 \<le> r then AppendRune r else []) (runes s))"

text \<open>\<open>unicode.ToLower\<close>: ASCII letters directly, other runes through the table.\<close>

definition unicode_ToLower :: "Unicode \<Rightarrow> rune \<Rightarrow> rune" where
  "unicode_ToLower U r =
     (if r \<le> 0x7F then (if 65 \<le> r \<and> r \<le> 90 then r + 32 else r) else To_lower U r)"

definition lower_byte :: "char \<Rightarrow> char" where
  "lower_byte c = (if is_upper c then char_of ((of_char c :: nat) + 32) else c)"

text \<open>
  \<open>strings.ToLower\<close>: a string of ASCII bytes only has its upper-case letters replaced
  byte by byte; any other string goes through \<open>Map(unicode.ToLower, s)\<close>.
\<close>

definition ToLower :: "Unicode \<Rightarrow> string \<Rightarrow> string" where
  "ToLower U s = (if list_all is_ascii s then map lower_byte s else Map (unicode_ToLower U) s)"

text \<open>
  One step of the ASCII loop of \<open>strings.EqualFold\<close>: equal bytes continue; otherwise the
  smaller byte must be an upper-case letter and the larger one its lower-case form.
\<close>

definition fold_byte :: "char \<Rightarrow> char \<Rightarrow> bool" where
  "fold_byte sr tr =
     (if tr = sr then True
      else (let lo = min (of_char sr :: nat) (of_char tr); hi = max (of_char sr :: nat) (of_char tr)
            in 65 \<le> lo \<and> lo \<le> 90 \<and> hi = lo + 32))"

text \<open>
  The general case of \<open>strings.EqualFold\<close> for two runes \<open>sr < tr\<close>:
  \<open>r := SimpleFold(sr); for r != sr && r < tr { r = SimpleFold(r) }; r == tr\<close>, run
  over the listed orbit of \<open>sr\<close>.
\<close>

fun fold_search :: "rune \<Rightarrow> rune \<Rightarrow> rune list \<Rightarrow> bool" where
  "fold_search sr tr [] = False"
| "fold_search sr tr (r # orbit) =
     (if r \<noteq> sr \<and> r < tr then fold_search sr tr orbit else r = tr)"

text \<open>One step of the rune loop: equal runes, ASCII letters of either case, or one orbit.\<close>

definition fold_rune :: "Unicode \<Rightarrow> rune \<Rightarrow> rune \<Rightarrow> bool" where
  "fold_rune U sr tr =
     (if tr = sr then True
      else (let lo = min sr tr; hi = max sr tr
            in if hi < 0x80 then 65 \<le> lo \<and> lo \<le> 90 \<and> hi = lo + 32
               else fold_search lo hi (fold_orbit U lo)))"

text \<open>
  The rune loop of \<open>strings.EqualFold\<close>, entered at the first byte that is not ASCII: the
  runes of both strings are compared in step, and both strings must end together.
\<close>

fun EqualFold_runes :: "Unicode \<Rightarrow> rune list \<Rightarrow> rune list \<Rightarrow> bool" where
  "EqualFold_runes U [] [] = True"
| "EqualFold_runes U (sr # s) (tr # t) = (if fold_rune U sr tr then EqualFold_runes U s t else False)"
| "EqualFold_runes U _ _ = False"

fun EqualFold :: "Unicode \<Rightarrow> string \<Rightarrow> string \<Rightarrow> bool" where
  "EqualFold U [] [] = True"
| "EqualFold U (sr # s) (tr # t) =
     (if \<not> is_ascii sr \<or> \<not> is_ascii tr then EqualFold_runes U (runes (sr # s)) (runes (tr # t))
      else if fold_byte sr tr then EqualFold U s t
      else False)"
| "EqualFold U _ _ = False"

text \<open>
  Entries of the tables for the examples: the lower-case forms of U+0130 and of the Kelvin
  sign U+212A, and the orbit of \<open>K\<close>, \<open>k\<close> and the Kelvin sign; every other rune is
  taken to have no case.
\<close>

definition example_tables :: Unicode where
  "example_tables =
     \<lparr>To_lower = (\<lambda>r. if r = 0x130 then 0x69 else if r = 0x212A then 0x6B else r),
      fold_orbit = (\<lambda>r. if r = 0x4B then [0x6B, 0x212A, 0x4B]
                         else if r = 0x6B then [0x212A, 0x4B, 0x6B]
                         else if r = 0x212A then [0x4B, 0x6B, 0x212A]
                         else [r])\<rparr>"

section \<open>Data model (internal/types)\<close>

record ComponentMatch =
  FilePath :: string
  Line :: int
  ComponentName :: string
  ComponentType :: string

record ScanResult =
  Matches :: "ComponentMatch list"
  TotalCount :: int
  ScanTimeMs :: int
  ResultComponentType :: string
  ScannedFiles :: int

section \<open>The component mapping registry (internal/registry)\<close>

text \<open>
  A Go map is modelled as an association list with distinct keys, read through
  \<^const>\<open>map_of\<close>. Go iterates over a map in an unspecified order; the loops below walk
  the association list front to back, and their result does not depend on the order.
\<close>

record ComponentMapping =
  Type :: string
  Patterns :: "(string \<times> string list) list"

record ComponentMappingRegistry =
  mappings :: "(string \<times> ComponentMapping) list"

definition NewComponentMappingRegistry :: ComponentMappingRegistry where
  "NewComponentMappingRegistry = \<lparr>mappings =
     [(''form'', \<lparr>Type = ''form'', Patterns =
         [(''native'', [''form'']),
          (''quasar'', [''q-form'', ''QForm'']),
          (''material'', [''v-form'', ''VForm'', ''Form'', ''MuiForm''])]\<rparr>),
      (''button'', \<lparr>Type = ''button'', Patterns =
         [(''native'', [''button'']),
          (''quasar'', [''q-btn'', ''QBtn'']),
          (''material'', [''v-btn'', ''VBtn'', ''Button'', ''MuiButton''])]\<rparr>),
      (''dialog'', \<lparr>Type = ''dialog'', Patterns =
         [(''native'', [''dialog'']),
          (''quasar'', [''q-dialog'', ''QDialog'']),
          (''material'', [''v-dialog'', ''VDialog'', ''Dialog'', ''MuiDialog''])]\<rparr>)]\<rparr>"

definition GetMapping :: "Unicode \<Rightarrow> ComponentMappingRegistry \<Rightarrow> string \<Rightarrow> ComponentMapping option" where
  "GetMapping U r componentType = map_of (mappings r) (ToLower U componentType)"

text \<open>The inner loop of \<open>MatchesComponentType\<close>: the names of one library group.\<close>

fun match_names :: "Unicode \<Rightarrow> string \<Rightarrow> string list \<Rightarrow> bool" where
  "match_names U componentName [] = False"
| "match_names U componentName (pattern # patterns) =
     (if EqualFold U componentName pattern then True else match_names U componentName patterns)"

text \<open>The outer loop: the library groups of the mapping.\<close>

fun match_groups :: "Unicode \<Rightarrow> string \<Rightarrow> (string \<times> string list) list \<Rightarrow> bool" where
  "match_groups U componentName [] = False"
| "match_groups U componentName ((library, patterns) # groups) =
     (if match_names U componentName patterns then True else match_groups U componentName groups)"

definition MatchesComponentType :: "Unicode \<Rightarrow> ComponentMappingRegistry \<Rightarrow> string \<Rightarrow> string \<Rightarrow> bool" where
  "MatchesComponentType U r componentName componentType =
     (case GetMapping U r componentType of
        None \<Rightarrow> EqualFold U componentName componentType
      | Some mapping \<Rightarrow> match_groups U componentName (Patterns mapping))"

section \<open>Regular expressions of the parsers\<close>

text \<open>
  The parsers use three regular expressions of Go's \<open>regexp\<close> package (leftmost-first
  matching). Each is modelled by the search it performs on the bytes of its input. All
  delimiters of the expressions are ASCII bytes, which never occur inside a multi-byte
  UTF-8 sequence, so matching by byte and matching by rune agree.
\<close>

definition newline :: char where
  "newline = CHR 0x0A"

text \<open>\<open>strings.Split(s, "\n")\<close>: cut at every newline; the result is never empty.\<close>

function Split_lines :: "string \<Rightarrow> string list" where
  "Split_lines s =
     (case dropWhile (\<lambda>c. c \<noteq> newline) s of
        [] \<Rightarrow> [s]
      | _ # r \<Rightarrow> takeWhile (\<lambda>c. c \<noteq> newline) s # Split_lines r)"
  by pat_completeness auto
termination
proof (relation "measure length")
  fix s :: string and x r
  assume "dropWhile (\<lambda>c. c \<noteq> newline) s = x # r"
  then have "length (x # r) \<le> length s"
    by (metis length_dropWhile_le)
  then show "(r, s) \<in> measure length" by simp
qed simp

declare Split_lines.simps [simp del]

text \<open>\<open>strings.Count(s, "\n")\<close>.\<close>

definition Count_newlines :: "string \<Rightarrow> nat" where
  "Count_newlines s = length (filter (\<lambda>c. c = newline) s)"

text \<open>
  The class \<open>[\s>/]\<close> that ends a tag name: \<open>\s\<close> is tab, newline, form feed,
  carriage return and space in Go.
\<close>

definition is_tag_end :: "char \<Rightarrow> bool" where
  "is_tag_end c = (c \<in> {CHR 0x09, CHR 0x0A, CHR 0x0C, CHR 0x0D, CHR '' '', CHR ''>'', CHR ''/''})"

text \<open>\<open>[A-Za-z]\<close> and \<open>[A-Za-z0-9-]\<close>, the name of a tag in a template.\<close>

definition template_first :: "char \<Rightarrow> bool" where
  "template_first c = (is_upper c \<or> is_lower c)"

definition template_rest :: "char \<Rightarrow> bool" where
  "template_rest c = (is_upper c \<or> is_lower c \<or> is_digit c \<or> c = CHR ''-'')"

text \<open>\<open>[A-Z]\<close> and \<open>[A-Za-z0-9]\<close>, the name of a JSX component.\<close>

definition jsx_first :: "char \<Rightarrow> bool" where
  "jsx_first c = is_upper c"

definition jsx_rest :: "char \<Rightarrow> bool" where
  "jsx_rest c = (is_upper c \<or> is_lower c \<or> is_digit c)"

text \<open>
  \<open>FindAllStringSubmatch(line, -1)\<close> for \<open><(F R*)(?:[\s>/]|$)\<close>, returning the first
  group of every match. At a \<open><\<close> followed by a byte of \<open>F\<close> the greedy \<open>R*\<close> takes
  the longest run; a shorter run would be followed by a byte of \<open>R\<close>, which is neither
  in \<open>[\s>/]\<close> nor the end of the text, so backtracking finds nothing more. A match
  consumes the byte that ends the name and the search resumes behind it; where there is
  no match at a position the search moves one byte on.
\<close>

function find_tags :: "(char \<Rightarrow> bool) \<Rightarrow> (char \<Rightarrow> bool) \<Rightarrow> string \<Rightarrow> string list" where
  "find_tags first rest [] = []"
| "find_tags first rest (c # cs) =
     (if c = CHR ''<'' then
        (case cs of
           [] \<Rightarrow> []
         | d # ds \<Rightarrow>
             if first d then
               (case dropWhile rest ds of
                  [] \<Rightarrow> [d # takeWhile rest ds]
                | t # ts \<Rightarrow>
                    if is_tag_end t then (d # takeWhile rest ds) # find_tags first rest ts
                    else find_tags first rest cs)
             else find_tags first rest cs)
      else find_tags first rest cs)"
  by pat_completeness auto
termination
proof (relation "measure (\<lambda>(first, rest, s). length s)")
  fix first rest :: "char \<Rightarrow> bool" and c d t :: char and cs ds ts :: string
  assume "cs = d # ds" and "dropWhile rest ds = t # ts"
  then have "length (t # ts) \<le> length ds"
    by (metis length_dropWhile_le)
  then show "((first, rest, ts), (first, rest, c # cs)) \<in> measure (\<lambda>(first, rest, s). length s)"
    using \<open>cs = d # ds\<close> by simp
qed simp_all

text \<open>\<open>strings.Index\<close>-like search: the offset of the first occurrence of a literal.\<close>

fun find_literal :: "string \<Rightarrow> string \<Rightarrow> nat option" where
  "find_literal pat [] = (if pat = [] then Some 0 else None)"
| "find_literal pat (c # cs) =
     (if prefix pat (c # cs) then Some 0 else map_option Suc (find_literal pat cs))"

text \<open>
  \<open>(?s)<tag[^>]*>(.*?)</tag>\<close> anchored at the start of \<open>s\<close>: the literal \<open><tag\<close>,
  then everything up to the first \<open>>\<close> (the greedy \<open>[^>]*\<close> cannot stop earlier, the
  next byte must be \<open>>\<close>), then the shortest text up to the closing literal. The result
  is the pair of offsets of the capture group.
\<close>

definition region_at :: "string \<Rightarrow> string \<Rightarrow> string \<Rightarrow> (nat \<times> nat) option" where
  "region_at opening closing s =
     (if prefix opening s then
        (let s1 = drop (length opening) s;
             attrs = takeWhile (\<lambda>c. c \<noteq> CHR ''>'') s1
         in case dropWhile (\<lambda>c. c \<noteq> CHR ''>'') s1 of
              [] \<Rightarrow> None
            | _ # body \<Rightarrow>
                (case find_literal closing body of
                   None \<Rightarrow> None
                 | Some k \<Rightarrow>
                     Some (length opening + length attrs + 1,
                           length opening + length attrs + 1 + k)))
      else None)"

text \<open>
  \<open>FindStringSubmatchIndex\<close>: the leftmost position at which the expression matches;
  \<open>off\<close> is the number of bytes already passed. The result is \<open>(match[2], match[3])\<close>.
\<close>

fun find_region :: "string \<Rightarrow> string \<Rightarrow> nat \<Rightarrow> string \<Rightarrow> (nat \<times> nat) option" where
  "find_region opening closing off [] =
     map_option (\<lambda>(a, b). (off + a, off + b)) (region_at opening closing [])"
| "find_region opening closing off (c # cs) =
     (case region_at opening closing (c # cs) of
        Some (a, b) \<Rightarrow> Some (off + a, off + b)
      | None \<Rightarrow> find_region opening closing (Suc off) cs)"

section \<open>The Vue and React parsers (internal/scanner)\<close>

definition HasSuffix :: "string \<Rightarrow> string \<Rightarrow> bool" where
  "HasSuffix s suf = suffix suf s"

definition extract_section :: "string \<Rightarrow> string \<Rightarrow> string \<Rightarrow> string \<times> int" where
  "extract_section opening closing content =
     (case find_region opening closing 0 content of
        None \<Rightarrow> ('''', 0)
      | Some (a, b) \<Rightarrow>
          (take (b - a) (drop a content), int (Count_newlines (take a content)) + 1))"

definition extractTemplateSection :: "string \<Rightarrow> string \<times> int" where
  "extractTemplateSection content = extract_section ''<template'' ''</template>'' content"

definition extractScriptSection :: "string \<Rightarrow> string \<times> int" where
  "extractScriptSection content = extract_section ''<script'' ''</script>'' content"

definition htmlTags :: "string list" where
  "htmlTags =
     [''div'', ''span'', ''p'', ''a'', ''img'',
      ''ul'', ''ol'', ''li'', ''table'', ''tr'',
      ''td'', ''th'', ''thead'', ''tbody'', ''tfoot'',
      ''h1'', ''h2'', ''h3'', ''h4'', ''h5'', ''h6'',
      ''header'', ''footer'', ''nav'', ''section'', ''article'',
      ''aside'', ''main'', ''input'', ''textarea'', ''select'',
      ''option'', ''label'', ''fieldset'', ''legend'',
      ''strong'', ''em'', ''b'', ''i'', ''u'',
      ''br'', ''hr'', ''pre'', ''code'', ''blockquote'',
      ''iframe'', ''video'', ''audio'', ''canvas'', ''svg'',
      ''path'', ''circle'', ''rect'', ''line'', ''polygon'',
      ''template'', ''slot'', ''script'', ''style'', ''link'',
      ''meta'', ''title'', ''head'', ''body'', ''html'',
      ''button'', ''form'', ''dialog'']"

definition isHTMLTag :: "Unicode \<Rightarrow> string \<Rightarrow> bool" where
  "isHTMLTag U tagName =
     (let lowerTag = ToLower U tagName in lowerTag = tagName \<and> lowerTag \<in> set htmlTags)"

text \<open>
  The three parsing passes share one loop shape. \<open>seenComponents\<close>, a map from a name to
  a map from a line index to a flag, is the set of the pairs whose flag is set. The inner
  loop runs over the matches of one line; \<open>skip\<close> is the test that drops a candidate
  before the duplicate check (\<open>isHTMLTag\<close> in the template pass, nothing in the others).
\<close>

type_synonym seen = "(string \<times> nat) set"

fun match_loop ::
  "(string \<Rightarrow> bool) \<Rightarrow> string \<Rightarrow> int \<Rightarrow> nat \<Rightarrow> string list \<Rightarrow>
   seen \<times> ComponentMatch list \<Rightarrow> seen \<times> ComponentMatch list" where
  "match_loop skip filePath baseLineNumber lineIdx [] st = st"
| "match_loop skip filePath baseLineNumber lineIdx (componentName # rest) (seenComponents, matches) =
     (if skip componentName then
        match_loop skip filePath baseLineNumber lineIdx rest (seenComponents, matches)
      else if (componentName, lineIdx) \<in> seenComponents then
        match_loop skip filePath baseLineNumber lineIdx rest (seenComponents, matches)
      else
        match_loop skip filePath baseLineNumber lineIdx rest
          (insert (componentName, lineIdx) seenComponents,
           matches @ [\<lparr>FilePath = filePath, Line = baseLineNumber + int lineIdx,
                        ComponentName = componentName, ComponentType = ''''\<rparr>]))"

text \<open>The outer loop, over the lines with their indices.\<close>

fun line_loop ::
  "(string \<Rightarrow> bool) \<Rightarrow> (char \<Rightarrow> bool) \<Rightarrow> (char \<Rightarrow> bool) \<Rightarrow> string \<Rightarrow> int \<Rightarrow> nat \<Rightarrow>
   string list \<Rightarrow> seen \<times> ComponentMatch list \<Rightarrow> seen \<times> ComponentMatch list" where
  "line_loop skip first rest filePath baseLineNumber lineIdx [] st = st"
| "line_loop skip first rest filePath baseLineNumber lineIdx (line # lines) st =
     line_loop skip first rest filePath baseLineNumber (Suc lineIdx) lines
       (match_loop skip filePath baseLineNumber lineIdx (find_tags first rest line) st)"

definition parseTemplateComponents :: "Unicode \<Rightarrow> string \<Rightarrow> string \<Rightarrow> int \<Rightarrow> ComponentMatch list" where
  "parseTemplateComponents U templateContent filePath baseLineNumber =
     snd (line_loop (isHTMLTag U) template_first template_rest filePath baseLineNumber 0
            (Split_lines templateContent) ({}, []))"

definition parseJSXComponents :: "string \<Rightarrow> string \<Rightarrow> int \<Rightarrow> ComponentMatch list" where
  "parseJSXComponents scriptContent filePath baseLineNumber =
     snd (line_loop (\<lambda>_. False) jsx_first jsx_rest filePath baseLineNumber 0
            (Split_lines scriptContent) ({}, []))"

definition parseReactJSXComponents :: "string \<Rightarrow> string \<Rightarrow> int \<Rightarrow> ComponentMatch list" where
  "parseReactJSXComponents content filePath baseLineNumber =
     snd (line_loop (\<lambda>_. False) jsx_first jsx_rest filePath baseLineNumber 0
            (Split_lines content) ({}, []))"

datatype error = Error string

definition VueParser_SupportsFile :: "Unicode \<Rightarrow> string \<Rightarrow> bool" where
  "VueParser_SupportsFile U filePath = HasSuffix (ToLower U filePath) ''.vue''"

definition VueParser_Parse :: "Unicode \<Rightarrow> string \<Rightarrow> string \<Rightarrow> error + ComponentMatch list" where
  "VueParser_Parse U fileContent filePath =
     (let (templateContent, templateStartLine) = extractTemplateSection fileContent;
          matches1 = (if templateContent \<noteq> ''''
                      then parseTemplateComponents U templateContent filePath templateStartLine
                      else []);
          (scriptContent, scriptStartLine) = extractScriptSection fileContent;
          matches2 = (if scriptContent \<noteq> ''''
                      then matches1 @ parseJSXComponents scriptContent filePath scriptStartLine
                      else matches1)
      in Inr matches2)"

definition ReactParser_SupportsFile :: "Unicode \<Rightarrow> string \<Rightarrow> bool" where
  "ReactParser_SupportsFile U filePath =
     (let lowerPath = ToLower U filePath
      in HasSuffix lowerPath ''.jsx'' \<or> HasSuffix lowerPath ''.tsx'')"

definition ReactParser_Parse :: "string \<Rightarrow> string \<Rightarrow> error + ComponentMatch list" where
  "ReactParser_Parse fileContent filePath = Inr (parseReactJSXComponents fileContent filePath 1)"

section \<open>The scanner (internal/scanner)\<close>

text \<open>The interface \<open>ComponentParser\<close>: a value with its two methods.\<close>

record ComponentParser =
  Parse :: "string \<Rightarrow> string \<Rightarrow> error + ComponentMatch list"
  SupportsFile :: "string \<Rightarrow> bool"

definition NewVueParser :: "Unicode \<Rightarrow> ComponentParser" where
  "NewVueParser U = \<lparr>Parse = VueParser_Parse U, SupportsFile = VueParser_SupportsFile U\<rparr>"

definition NewReactParser :: "Unicode \<Rightarrow> ComponentParser" where
  "NewReactParser U = \<lparr>Parse = ReactParser_Parse, SupportsFile = ReactParser_SupportsFile U\<rparr>"

record ComponentScanner =
  parsers :: "ComponentParser list"
  registry :: ComponentMappingRegistry

definition NewComponentScanner :: "ComponentParser list \<Rightarrow> ComponentMappingRegistry \<Rightarrow> ComponentScanner" where
  "NewComponentScanner ps reg = \<lparr>parsers = ps, registry = reg\<rparr>"

text \<open>The loop of \<open>filterByComponentType\<close>; \<open>filtered\<close> is the slice built so far.\<close>

fun filter_loop ::
  "Unicode \<Rightarrow> ComponentMappingRegistry \<Rightarrow> string \<Rightarrow> ComponentMatch list \<Rightarrow> ComponentMatch list \<Rightarrow> ComponentMatch list" where
  "filter_loop U reg componentType [] filtered = filtered"
| "filter_loop U reg componentType (match # matches) filtered =
     (if MatchesComponentType U reg (ComponentName match) componentType
      then filter_loop U reg componentType matches (filtered @ [match\<lparr>ComponentType := componentType\<rparr>])
      else filter_loop U reg componentType matches filtered)"

definition filterByComponentType :: "Unicode \<Rightarrow> ComponentScanner \<Rightarrow> ComponentMatch list \<Rightarrow> string \<Rightarrow> ComponentMatch list" where
  "filterByComponentType U s matches componentType = filter_loop U (registry s) componentType matches []"

text \<open>The first parser, in the order of the scanner's list, that supports the path.\<close>

fun select_parser :: "ComponentParser list \<Rightarrow> string \<Rightarrow> ComponentParser option" where
  "select_parser [] path = None"
| "select_parser (p # ps) path = (if SupportsFile p path then Some p else select_parser ps path)"

text \<open>
  The body of the goroutine started for one path: the slice it sends on the channel. A
  nil slice is the empty list. \<open>ReadFile\<close> stands for \<open>os.ReadFile\<close> on the file system
  as it is during the scan.
\<close>

definition scan_file ::
  "Unicode \<Rightarrow> ComponentScanner \<Rightarrow> (string \<Rightarrow> error + string) \<Rightarrow> string \<Rightarrow> string \<Rightarrow> ComponentMatch list" where
  "scan_file U s ReadFile componentType path =
     (case select_parser (parsers s) path of
        None \<Rightarrow> []
      | Some parser \<Rightarrow>
          (case ReadFile path of
             Inl err \<Rightarrow> []
           | Inr content \<Rightarrow>
               (case Parse parser content path of
                  Inl err \<Rightarrow> []
                | Inr matches \<Rightarrow> filterByComponentType U s matches componentType)))"

text \<open>The collecting loop over the slices received from the channel.\<close>

fun collect :: "ComponentMatch list list \<Rightarrow> ComponentMatch list \<Rightarrow> ComponentMatch list" where
  "collect [] allMatches = allMatches"
| "collect (matches # received) allMatches =
     collect received (if matches \<noteq> [] then allMatches @ matches else allMatches)"

text \<open>
  \<open>Scan\<close> starts one goroutine per element of \<open>files\<close>; each sends exactly one slice on a
  channel with room for all of them, and the channel is closed when all have finished, so
  the collecting loop receives one slice per goroutine, in the order in which they
  arrive. That order is not determined by the program: \<open>arrival\<close> lists the paths of the
  goroutines in the order of their sends, and is an execution of \<open>Scan\<close> exactly when it
  is a rearrangement of \<open>files\<close>. \<open>elapsed\<close> is the time measured by the clock, in
  milliseconds.
\<close>

definition is_arrival_order :: "string list \<Rightarrow> string list \<Rightarrow> bool" where
  "is_arrival_order files arrival = (mset arrival = mset files)"

definition Scan ::
  "Unicode \<Rightarrow> ComponentScanner \<Rightarrow> (string \<Rightarrow> error + string) \<Rightarrow> string list \<Rightarrow> int \<Rightarrow>
   string list \<Rightarrow> string \<Rightarrow> error + ScanResult" where
  "Scan U s ReadFile arrival elapsed files componentType =
     (let allMatches = collect (map (scan_file U s ReadFile componentType) arrival) []
      in Inr \<lparr>Matches = allMatches,
              TotalCount = int (length allMatches),
              ScanTimeMs = elapsed,
              ResultComponentType = componentType,
              ScannedFiles = int (length files)\<rparr>)"

text \<open>
  What the specification says one input file contributes to a scan, as a multiset: nothing
  when no parser supports the path, when the file cannot be read or when parsing fails;
  otherwise the raw matches of the first supporting parser that the registry accepts for
  the requested type, each with its component type set to the requested type.
\<close>

definition spec_file_matches ::
  "Unicode \<Rightarrow> ComponentScanner \<Rightarrow> (string \<Rightarrow> error + string) \<Rightarrow> string \<Rightarrow> string \<Rightarrow> ComponentMatch multiset" where
  "spec_file_matches U s ReadFile requestedType path =
     (case find (\<lambda>p. SupportsFile p path) (parsers s) of
        None \<Rightarrow> {#}
      | Some parser \<Rightarrow>
          (case ReadFile path of
             Inl err \<Rightarrow> {#}
           | Inr content \<Rightarrow>
               (case Parse parser content path of
                  Inl err \<Rightarrow> {#}
                | Inr raw \<Rightarrow>
                    image_mset (\<lambda>m. m\<lparr>ComponentType := requestedType\<rparr>)
                      (filter_mset (\<lambda>m. MatchesComponentType U (registry s) (ComponentName m) requestedType)
                         (mset raw)))))"

section \<open>Properties of the registry\<close>

lemma match_names_iff: "match_names U n ps \<longleftrightarrow> (\<exists>p\<in>set ps. EqualFold U n p)"
  by (induction ps) auto

lemma match_groups_iff: "match_groups U n gs \<longleftrightarrow> (\<exists>g\<in>set gs. \<exists>p\<in>set (snd g). EqualFold U n p)"
  by (induction gs) (auto simp: match_names_iff)

lemma GetMapping_New:
  "GetMapping U NewComponentMappingRegistry ty =
     (if ToLower U ty = ''form'' then Some \<lparr>Type = ''form'', Patterns =
         [(''native'', [''form'']),
          (''quasar'', [''q-form'', ''QForm'']),
          (''material'', [''v-form'', ''VForm'', ''Form'', ''MuiForm''])]\<rparr>
      else if ToLower U ty = ''button'' then Some \<lparr>Type = ''button'', Patterns =
         [(''native'', [''button'']),
          (''quasar'', [''q-btn'', ''QBtn'']),
          (''material'', [''v-btn'', ''VBtn'', ''Button'', ''MuiButton''])]\<rparr>
      else if ToLower U ty = ''dialog'' then Some \<lparr>Type = ''dialog'', Patterns =
         [(''native'', [''dialog'']),
          (''quasar'', [''q-dialog'', ''QDialog'']),
          (''material'', [''v-dialog'', ''VDialog'', ''Dialog'', ''MuiDialog''])]\<rparr>
      else None)"
  by (simp add: GetMapping_def NewComponentMappingRegistry_def)

text \<open>
  Claim C2. For every requested type whose lower-case form, as \<open>strings.ToLower\<close>
  gives it, is one of the known types \<open>form\<close>, \<open>button\<close>, \<open>dialog\<close>, and for every
  element name, \<open>MatchesComponentType\<close> on the registry built by
  \<open>NewComponentMappingRegistry\<close> is true exactly when the element name is equal under
  \<open>strings.EqualFold\<close> to one of the literal names registered in the library groups of
  that type. The comparison is on whole names: \<open>Q-FORM\<close> is a form,
  \<open>q-form-extended\<close> is not. This holds whatever the case tables of package
  \<open>unicode\<close> are.
\<close>

theorem classify_known_type:
  "(ToLower U ty = ''form'' \<longrightarrow>
      MatchesComponentType U NewComponentMappingRegistry name ty =
        (\<exists>p \<in> set [''form'', ''q-form'', ''QForm'', ''v-form'', ''VForm'', ''Form'', ''MuiForm''].
           EqualFold U name p)) \<and>
   (ToLower U ty = ''button'' \<longrightarrow>
      MatchesComponentType U NewComponentMappingRegistry name ty =
        (\<exists>p \<in> set [''button'', ''q-btn'', ''QBtn'', ''v-btn'', ''VBtn'', ''Button'', ''MuiButton''].
           EqualFold U name p)) \<and>
   (ToLower U ty = ''dialog'' \<longrightarrow>
      MatchesComponentType U NewComponentMappingRegistry name ty =
        (\<exists>p \<in> set [''dialog'', ''q-dialog'', ''QDialog'', ''v-dialog'', ''VDialog'', ''Dialog'', ''MuiDialog''].
           EqualFold U name p)) \<and>
   MatchesComponentType U NewComponentMappingRegistry ''Q-FORM'' ''form'' \<and>
   \<not> MatchesComponentType U NewComponentMappingRegistry ''q-form-extended'' ''form''"
proof -
  have ex1: "MatchesComponentType U NewComponentMappingRegistry ''Q-FORM'' ''form''"
    by code_simp
  have ex2: "\<not> MatchesComponentType U NewComponentMappingRegistry ''q-form-extended'' ''form''"
    by code_simp
  have "ToLower U ty = ''form'' \<longrightarrow>
      MatchesComponentType U NewComponentMappingRegistry name ty =
        (\<exists>p \<in> set [''form'', ''q-form'', ''QForm'', ''v-form'', ''VForm'', ''Form'', ''MuiForm''].
           EqualFold U name p)"
    by (simp add: MatchesComponentType_def GetMapping_New)
  moreover have "ToLower U ty = ''button'' \<longrightarrow>
      MatchesComponentType U NewComponentMappingRegistry name ty =
        (\<exists>p \<in> set [''button'', ''q-btn'', ''QBtn'', ''v-btn'', ''VBtn'', ''Button'', ''MuiButton''].
           EqualFold U name p)"
    by (simp add: MatchesComponentType_def GetMapping_New)
  moreover have "ToLower U ty = ''dialog'' \<longrightarrow>
      MatchesComponentType U NewComponentMappingRegistry name ty =
        (\<exists>p \<in> set [''dialog'', ''q-dialog'', ''QDialog'', ''v-dialog'', ''VDialog'', ''Dialog'', ''MuiDialog''].
           EqualFold U name p)"
    by (simp add: MatchesComponentType_def GetMapping_New)
  ultimately show ?thesis using ex1 ex2 by blast
qed

text \<open>
  The three known types at concrete inputs, the last one a requested type written with
  the letter U+0130, which \<open>strings.ToLower\<close> turns into \<open>i\<close>.
\<close>

theorem classify_known_type_witness:
  "ToLower example_tables ''FORM'' = ''form'' \<and>
   MatchesComponentType example_tables NewComponentMappingRegistry ''Q-FORM'' ''FORM'' \<and>
   ToLower example_tables ''Button'' = ''button'' \<and>
   MatchesComponentType example_tables NewComponentMappingRegistry ''VBTN'' ''Button'' \<and>
   ToLower example_tables ''dialog'' = ''dialog'' \<and>
   \<not> MatchesComponentType example_tables NewComponentMappingRegistry ''dialogue'' ''dialog'' \<and>
   ToLower example_tables [CHR ''D'', CHR 0xC4, CHR 0xB0, CHR ''A'', CHR ''L'', CHR ''O'', CHR ''G''] = ''dialog'' \<and>
   MatchesComponentType example_tables NewComponentMappingRegistry ''Q-Dialog''
     [CHR ''D'', CHR 0xC4, CHR 0xB0, CHR ''A'', CHR ''L'', CHR ''O'', CHR ''G'']"
proof -
  have h1: "ToLower example_tables ''FORM'' = ''form''" by code_simp
  have h2: "ToLower example_tables ''Button'' = ''button''" by code_simp
  have h3: "ToLower example_tables ''dialog'' = ''dialog''" by code_simp
  have e1: "\<exists>p \<in> set [''form'', ''q-form'', ''QForm'', ''v-form'', ''VForm'', ''Form'', ''MuiForm''].
           EqualFold example_tables ''Q-FORM'' p" by code_simp
  have e2: "\<exists>p \<in> set [''button'', ''q-btn'', ''QBtn'', ''v-btn'', ''VBtn'', ''Button'', ''MuiButton''].
           EqualFold example_tables ''VBTN'' p" by code_simp
  have e3: "\<not> (\<exists>p \<in> set [''dialog'', ''q-dialog'', ''QDialog'', ''v-dialog'', ''VDialog'', ''Dialog'', ''MuiDialog''].
           EqualFold example_tables ''dialogue'' p)" by code_simp
  from classify_known_type [of example_tables "''FORM''" "''Q-FORM''"] h1 e1
  have c1: "MatchesComponentType example_tables NewComponentMappingRegistry ''Q-FORM'' ''FORM''" by blast
  from classify_known_type [of example_tables "''Button''" "''VBTN''"] h2 e2
  have c2: "MatchesComponentType example_tables NewComponentMappingRegistry ''VBTN'' ''Button''" by blast
  from classify_known_type [of example_tables "''dialog''" "''dialogue''"] h3 e3
  have c3: "\<not> MatchesComponentType example_tables NewComponentMappingRegistry ''dialogue'' ''dialog''" by blast
  have h4: "ToLower example_tables [CHR ''D'', CHR 0xC4, CHR 0xB0, CHR ''A'', CHR ''L'', CHR ''O'', CHR ''G''] = ''dialog''"
    by code_simp
  have e4: "\<exists>p \<in> set [''dialog'', ''q-dialog'', ''QDialog'', ''v-dialog'', ''VDialog'', ''Dialog'', ''MuiDialog''].
           EqualFold example_tables ''Q-Dialog'' p" by code_simp
  from classify_known_type [of example_tables "[CHR ''D'', CHR 0xC4, CHR 0xB0, CHR ''A'', CHR ''L'', CHR ''O'', CHR ''G'']" "''Q-Dialog''"] h4 e4
  have c4: "MatchesComponentType example_tables NewComponentMappingRegistry ''Q-Dialog''
     [CHR ''D'', CHR 0xC4, CHR 0xB0, CHR ''A'', CHR ''L'', CHR ''O'', CHR ''G'']" by blast
  from h1 h2 h3 c1 c2 c3 h4 c4 show ?thesis by blast
qed

text \<open>
  Claim C3. For every requested type whose lower-case form, as \<open>strings.ToLower\<close>
  gives it, is none of the known types, and for every element name,
  \<open>MatchesComponentType\<close> is true exactly when the element name is equal under
  \<open>strings.EqualFold\<close> to the requested type string itself: \<open>Widget\<close> and
  \<open>widget\<close> match the type \<open>Widget\<close>, \<open>OtherWidget\<close> does not. This holds
  whatever the case tables of package \<open>unicode\<close> are.
\<close>

theorem classify_unknown_type:
  "(ToLower U ty \<notin> {''form'', ''button'', ''dialog''} \<longrightarrow>
      MatchesComponentType U NewComponentMappingRegistry name ty = EqualFold U name ty) \<and>
   MatchesComponentType U NewComponentMappingRegistry ''Widget'' ''Widget'' \<and>
   MatchesComponentType U NewComponentMappingRegistry ''widget'' ''Widget'' \<and>
   \<not> MatchesComponentType U NewComponentMappingRegistry ''OtherWidget'' ''Widget''"
proof -
  have "ToLower U ty \<notin> {''form'', ''button'', ''dialog''} \<longrightarrow>
      MatchesComponentType U NewComponentMappingRegistry name ty = EqualFold U name ty"
    by (simp add: MatchesComponentType_def GetMapping_New)
  moreover have "MatchesComponentType U NewComponentMappingRegistry ''Widget'' ''Widget''"
    by code_simp
  moreover have "MatchesComponentType U NewComponentMappingRegistry ''widget'' ''Widget''"
    by code_simp
  moreover have "\<not> MatchesComponentType U NewComponentMappingRegistry ''OtherWidget'' ''Widget''"
    by code_simp
  ultimately show ?thesis by blast
qed

text \<open>
  A custom type at concrete inputs, and the Kelvin sign U+212A as a requested type, which
  the name \<open>k\<close> equals under Unicode case folding.
\<close>

theorem classify_unknown_type_witness:
  "ToLower example_tables ''Q-Card'' \<notin> {''form'', ''button'', ''dialog''} \<and>
   MatchesComponentType example_tables NewComponentMappingRegistry ''q-card'' ''Q-Card'' \<and>
   \<not> MatchesComponentType example_tables NewComponentMappingRegistry ''q-form'' ''Q-Card'' \<and>
   ToLower example_tables [CHR 0xE2, CHR 0x84, CHR 0xAA] \<notin> {''form'', ''button'', ''dialog''} \<and>
   MatchesComponentType example_tables NewComponentMappingRegistry ''k'' [CHR 0xE2, CHR 0x84, CHR 0xAA]"
proof -
  have h: "ToLower example_tables ''Q-Card'' \<notin> {''form'', ''button'', ''dialog''}" by code_simp
  have e1: "EqualFold example_tables ''q-card'' ''Q-Card''" by code_simp
  have e2: "\<not> EqualFold example_tables ''q-form'' ''Q-Card''" by code_simp
  from classify_unknown_type [of example_tables "''Q-Card''" "''q-card''"] h e1
  have c1: "MatchesComponentType example_tables NewComponentMappingRegistry ''q-card'' ''Q-Card''" by blast
  from classify_unknown_type [of example_tables "''Q-Card''" "''q-form''"] h e2
  have c2: "\<not> MatchesComponentType example_tables NewComponentMappingRegistry ''q-form'' ''Q-Card''" by blast
  have h': "ToLower example_tables [CHR 0xE2, CHR 0x84, CHR 0xAA] \<notin> {''form'', ''button'', ''dialog''}"
    by code_simp
  have e3: "EqualFold example_tables ''k'' [CHR 0xE2, CHR 0x84, CHR 0xAA]" by code_simp
  from classify_unknown_type [of example_tables "[CHR 0xE2, CHR 0x84, CHR 0xAA]" "''k''"] h' e3
  have c3: "MatchesComponentType example_tables NewComponentMappingRegistry ''k'' [CHR 0xE2, CHR 0x84, CHR 0xAA]"
    by blast
  from h c1 c2 h' c3 show ?thesis by blast
qed

section \<open>Properties of the scanner\<close>

lemma filter_loop_eq:
  "filter_loop U reg ty ms acc =
     acc @ map (\<lambda>m. m\<lparr>ComponentType := ty\<rparr>)
             (filter (\<lambda>m. MatchesComponentType U reg (ComponentName m) ty) ms)"
  by (induction ms arbitrary: acc) auto

text \<open>
  Claim C10. \<open>filterByComponentType\<close> keeps, in their order, exactly the matches whose
  \<open>ComponentName\<close> the registry accepts for the requested type, and changes nothing of a
  kept match but its \<open>ComponentType\<close>, which becomes the requested type; so the file
  paths, lines and names of the output are a subsequence of those of the input.
\<close>

theorem filterByComponentType_frame:
  "filterByComponentType U s matches ty =
     map (\<lambda>m. m\<lparr>ComponentType := ty\<rparr>)
       (filter (\<lambda>m. MatchesComponentType U (registry s) (ComponentName m) ty) matches) \<and>
   subseq (map (\<lambda>m. (FilePath m, Line m, ComponentName m)) (filterByComponentType U s matches ty))
          (map (\<lambda>m. (FilePath m, Line m, ComponentName m)) matches)"
proof -
  have eq: "filterByComponentType U s matches ty =
     map (\<lambda>m. m\<lparr>ComponentType := ty\<rparr>)
       (filter (\<lambda>m. MatchesComponentType U (registry s) (ComponentName m) ty) matches)"
    by (simp add: filterByComponentType_def filter_loop_eq)
  have "map (\<lambda>m. (FilePath m, Line m, ComponentName m)) (filterByComponentType U s matches ty) =
        map (\<lambda>m. (FilePath m, Line m, ComponentName m))
          (filter (\<lambda>m. MatchesComponentType U (registry s) (ComponentName m) ty) matches)"
    by (simp add: eq o_def)
  then have "subseq (map (\<lambda>m. (FilePath m, Line m, ComponentName m)) (filterByComponentType U s matches ty))
          (map (\<lambda>m. (FilePath m, Line m, ComponentName m)) matches)"
    by (simp only: subseq_map subseq_filter_left)
  with eq show ?thesis by blast
qed

section \<open>Properties of the parsing loops\<close>

text \<open>
  The inner loop adds, for the line it runs on, one match for each name that is not
  skipped and not yet seen on that line, each name once.
\<close>

lemma match_loop_seen:
  "fst (match_loop skip p b i names (seen, ms)) = seen \<union> {(n, i) | n. n \<in> set names \<and> \<not> skip n}"
  by (induction names arbitrary: seen ms) auto

lemma match_loop_matches:
  "\<exists>new. snd (match_loop skip p b i names (seen, ms)) =
           ms @ map (\<lambda>n. \<lparr>FilePath = p, Line = b + int i, ComponentName = n, ComponentType = ''''\<rparr>) new \<and>
         distinct new \<and>
         set new = {n \<in> set names. \<not> skip n \<and> (n, i) \<notin> seen}"
proof (induction names arbitrary: seen ms)
  case Nil
  then show ?case by simp
next
  case (Cons n names)
  show ?case
  proof (cases "skip n \<or> (n, i) \<in> seen")
    case True
    from Cons.IH [of seen ms] obtain new where
      "snd (match_loop skip p b i names (seen, ms)) =
         ms @ map (\<lambda>n. \<lparr>FilePath = p, Line = b + int i, ComponentName = n, ComponentType = ''''\<rparr>) new"
      "distinct new" "set new = {n \<in> set names. \<not> skip n \<and> (n, i) \<notin> seen}"
      by blast
    with True show ?thesis by (intro exI [of _ new]) auto
  next
    case False
    let ?m = "\<lparr>FilePath = p, Line = b + int i, ComponentName = n, ComponentType = ''''\<rparr>"
    from Cons.IH [of "insert (n, i) seen" "ms @ [?m]"] obtain new where new:
      "snd (match_loop skip p b i names (insert (n, i) seen, ms @ [?m])) =
         (ms @ [?m]) @ map (\<lambda>n. \<lparr>FilePath = p, Line = b + int i, ComponentName = n, ComponentType = ''''\<rparr>) new"
      "distinct new" "set new = {x \<in> set names. \<not> skip x \<and> (x, i) \<notin> insert (n, i) seen}"
      by blast
    with False show ?thesis by (intro exI [of _ "n # new"]) auto
  qed
qed

text \<open>
  The outer loop: the matches it adds are those of the candidates of each line that are
  not skipped, at the line's number. Line \<open>i\<close> is not in \<open>seen\<close> when the loop reaches it.
\<close>

lemma line_loop_set:
  assumes "\<forall>(n, j) \<in> seen. j < i"
  shows "set (snd (line_loop skip f r p b i lines (seen, ms))) =
         set ms \<union> {\<lparr>FilePath = p, Line = b + int (i + j), ComponentName = n, ComponentType = ''''\<rparr> | j n.
                      j < length lines \<and> n \<in> set (find_tags f r (lines ! j)) \<and> \<not> skip n}"
  using assms
proof (induction lines arbitrary: i seen ms)
  case Nil
  then show ?case by simp
next
  case (Cons line lines)
  obtain seen' ms' where st: "match_loop skip p b i (find_tags f r line) (seen, ms) = (seen', ms')"
    by (cases "match_loop skip p b i (find_tags f r line) (seen, ms)") auto
  have seen': "seen' = seen \<union> {(n, i) | n. n \<in> set (find_tags f r line) \<and> \<not> skip n}"
    using match_loop_seen [of skip p b i "find_tags f r line" seen ms] st by simp
  obtain new where new:
    "ms' = ms @ map (\<lambda>n. \<lparr>FilePath = p, Line = b + int i, ComponentName = n, ComponentType = ''''\<rparr>) new"
    "set new = {n \<in> set (find_tags f r line). \<not> skip n \<and> (n, i) \<notin> seen}"
    using match_loop_matches [of skip p b i "find_tags f r line" seen ms] st by auto
  have fresh: "\<And>n. (n, i) \<notin> seen" using Cons.prems by auto
  have new_set: "set new = {n \<in> set (find_tags f r line). \<not> skip n}"
    using new(2) fresh by simp
  have inv: "\<forall>(n, j) \<in> seen'. j < Suc i"
    using Cons.prems seen' by (auto simp: less_Suc_eq)
  have "set (snd (line_loop skip f r p b i (line # lines) (seen, ms))) =
        set (snd (line_loop skip f r p b (Suc i) lines (seen', ms')))"
    by (simp add: st)
  also have "\<dots> = set ms' \<union> {\<lparr>FilePath = p, Line = b + int (Suc i + j), ComponentName = n, ComponentType = ''''\<rparr> | j n.
                      j < length lines \<and> n \<in> set (find_tags f r (lines ! j)) \<and> \<not> skip n}"
    by (rule Cons.IH [OF inv])
  also have "\<dots> = set ms \<union> {\<lparr>FilePath = p, Line = b + int (i + j), ComponentName = n, ComponentType = ''''\<rparr> | j n.
                      j < length (line # lines) \<and> n \<in> set (find_tags f r ((line # lines) ! j)) \<and> \<not> skip n}"
    (is "?L = ?R")
  proof (intro set_eqI iffI)
    fix m assume "m \<in> ?L"
    then consider "m \<in> set ms"
      | n where "n \<in> set new" "m = \<lparr>FilePath = p, Line = b + int i, ComponentName = n, ComponentType = ''''\<rparr>"
      | j n where "j < length lines" "n \<in> set (find_tags f r (lines ! j))" "\<not> skip n"
          "m = \<lparr>FilePath = p, Line = b + int (Suc i + j), ComponentName = n, ComponentType = ''''\<rparr>"
      using new(1) by auto
    then show "m \<in> ?R"
    proof cases
      case 1
      then show ?thesis by simp
    next
      case 2
      then have "0 < length (line # lines) \<and> n \<in> set (find_tags f r ((line # lines) ! 0)) \<and> \<not> skip n
          \<and> m = \<lparr>FilePath = p, Line = b + int (i + 0), ComponentName = n, ComponentType = ''''\<rparr>"
        using new_set by simp
      then show ?thesis by blast
    next
      case 3
      then have "Suc j < length (line # lines) \<and> n \<in> set (find_tags f r ((line # lines) ! Suc j)) \<and> \<not> skip n
          \<and> m = \<lparr>FilePath = p, Line = b + int (i + Suc j), ComponentName = n, ComponentType = ''''\<rparr>"
        by simp
      then show ?thesis by blast
    qed
  next
    fix m assume "m \<in> ?R"
    then consider "m \<in> set ms"
      | j n where "j < length (line # lines)" "n \<in> set (find_tags f r ((line # lines) ! j))" "\<not> skip n"
          "m = \<lparr>FilePath = p, Line = b + int (i + j), ComponentName = n, ComponentType = ''''\<rparr>"
      by auto
    then show "m \<in> ?L"
    proof cases
      case 1
      then show ?thesis using new(1) by simp
    next
      case 2
      show ?thesis
      proof (cases j)
        case 0
        with 2 have "n \<in> set new" using new_set by simp
        with 2 0 show ?thesis using new(1) by auto
      next
        case (Suc j')
        with 2 have "j' < length lines \<and> n \<in> set (find_tags f r (lines ! j')) \<and> \<not> skip n \<and>
          m = \<lparr>FilePath = p, Line = b + int (Suc i + j'), ComponentName = n, ComponentType = ''''\<rparr>"
          by simp
        then show ?thesis by blast
      qed
    qed
  qed
  finally show ?case .
qed

text \<open>Counting the matches of one name on one line.\<close>

lemma count_new_matches:
  assumes "distinct new"
  shows "length (filter (\<lambda>m. ComponentName m = n \<and> Line m = b + int k)
           (map (\<lambda>n. \<lparr>FilePath = p, Line = b + int i, ComponentName = n, ComponentType = ''''\<rparr>) new)) =
         (if k = i \<and> n \<in> set new then 1 else 0)"
  using assms by (induction new) auto

lemma line_loop_count:
  assumes "\<forall>(n, j) \<in> seen. j < i"
  shows "length (filter (\<lambda>m. ComponentName m = n \<and> Line m = b + int k)
           (snd (line_loop skip f r p b i lines (seen, ms)))) =
         length (filter (\<lambda>m. ComponentName m = n \<and> Line m = b + int k) ms) +
         (if i \<le> k \<and> k < i + length lines \<and> n \<in> set (find_tags f r (lines ! (k - i))) \<and> \<not> skip n
          then 1 else 0)"
  using assms
proof (induction lines arbitrary: i seen ms)
  case Nil
  then show ?case by simp
next
  case (Cons line lines)
  obtain seen' ms' where st: "match_loop skip p b i (find_tags f r line) (seen, ms) = (seen', ms')"
    by (cases "match_loop skip p b i (find_tags f r line) (seen, ms)") auto
  have seen': "seen' = seen \<union> {(n, i) | n. n \<in> set (find_tags f r line) \<and> \<not> skip n}"
    using match_loop_seen [of skip p b i "find_tags f r line" seen ms] st by simp
  obtain new where new:
    "ms' = ms @ map (\<lambda>n. \<lparr>FilePath = p, Line = b + int i, ComponentName = n, ComponentType = ''''\<rparr>) new"
    "distinct new"
    "set new = {n \<in> set (find_tags f r line). \<not> skip n \<and> (n, i) \<notin> seen}"
    using match_loop_matches [of skip p b i "find_tags f r line" seen ms] st by auto
  have fresh: "\<And>n. (n, i) \<notin> seen" using Cons.prems by auto
  have new_set: "set new = {n \<in> set (find_tags f r line). \<not> skip n}"
    using new(3) fresh by simp
  have inv: "\<forall>(n, j) \<in> seen'. j < Suc i"
    using Cons.prems seen' by (auto simp: less_Suc_eq)
  let ?P = "\<lambda>m. ComponentName m = n \<and> Line m = b + int k"
  have here: "length (filter ?P ms') =
      length (filter ?P ms) + (if k = i \<and> n \<in> set (find_tags f r line) \<and> \<not> skip n then 1 else 0)"
    using count_new_matches [OF new(2), of n b k p i] new_set by (simp add: new(1))
  have "length (filter ?P (snd (line_loop skip f r p b i (line # lines) (seen, ms)))) =
        length (filter ?P (snd (line_loop skip f r p b (Suc i) lines (seen', ms'))))"
    by (simp add: st)
  also have "\<dots> = length (filter ?P ms') +
         (if Suc i \<le> k \<and> k < Suc i + length lines \<and> n \<in> set (find_tags f r (lines ! (k - Suc i))) \<and> \<not> skip n
          then 1 else 0)"
    by (rule Cons.IH [OF inv])
  also have "\<dots> = length (filter ?P ms) +
         (if i \<le> k \<and> k < i + length (line # lines) \<and> n \<in> set (find_tags f r ((line # lines) ! (k - i))) \<and> \<not> skip n
          then 1 else 0)"
  proof (cases "k = i")
    case True
    then show ?thesis using here by simp
  next
    case False
    then have "(line # lines) ! (k - i) = lines ! (k - Suc i)" if "i \<le> k"
    proof -
      from that False have "k - i = Suc (k - Suc i)" by arith
      then show ?thesis by simp
    qed
    moreover have "i \<le> k \<longleftrightarrow> Suc i \<le> k" using False by auto
    ultimately show ?thesis using here False by auto
  qed
  finally show ?case .
qed

section \<open>Properties of the parsers\<close>

text \<open>Every name of the denylist is in lower case, so \<open>isHTMLTag\<close> is membership.\<close>

lemma htmlTags_lower: "t \<in> set htmlTags \<Longrightarrow> ToLower U t = t"
proof -
  have "list_all (\<lambda>t. ToLower U t = t) htmlTags" by code_simp
  then show "t \<in> set htmlTags \<Longrightarrow> ToLower U t = t" by (simp add: list_all_iff)
qed

lemma isHTMLTag_iff: "isHTMLTag U n \<longleftrightarrow> n \<in> set htmlTags"
  using htmlTags_lower [of n U] by (auto simp: isHTMLTag_def Let_def)

text \<open>The matches of each pass, as a set.\<close>

lemma parseTemplateComponents_set:
  "set (parseTemplateComponents U c p b) =
     {\<lparr>FilePath = p, Line = b + int j, ComponentName = n, ComponentType = ''''\<rparr> | j n.
        j < length (Split_lines c) \<and>
        n \<in> set (find_tags template_first template_rest (Split_lines c ! j)) \<and> \<not> isHTMLTag U n}"
  unfolding parseTemplateComponents_def
  by (subst line_loop_set) simp_all

lemma parseJSXComponents_set:
  "set (parseJSXComponents c p b) =
     {\<lparr>FilePath = p, Line = b + int j, ComponentName = n, ComponentType = ''''\<rparr> | j n.
        j < length (Split_lines c) \<and> n \<in> set (find_tags jsx_first jsx_rest (Split_lines c ! j))}"
  unfolding parseJSXComponents_def
  by (subst line_loop_set) simp_all

lemma parseReactJSXComponents_set:
  "set (parseReactJSXComponents c p b) =
     {\<lparr>FilePath = p, Line = b + int j, ComponentName = n, ComponentType = ''''\<rparr> | j n.
        j < length (Split_lines c) \<and> n \<in> set (find_tags jsx_first jsx_rest (Split_lines c ! j))}"
  unfolding parseReactJSXComponents_def
  by (subst line_loop_set) simp_all

text \<open>
  Claim C5. In each pass (the template pass and the script pass of the Vue parser, the
  whole-file pass of the React parser) the number of matches of a name \<open>n\<close> reported
  at the line with index \<open>k\<close> is one if \<open>n\<close> is among the candidates found on that
  line (and, in the template pass, is not an HTML tag), however often it occurs there, and
  zero otherwise. So a name repeated on a line gives one match for that line, the same
  name on two lines gives one match for each, and different names on a line are all kept.
\<close>

theorem per_line_dedup:
  "length (filter (\<lambda>m. ComponentName m = n \<and> Line m = b + int k) (parseTemplateComponents U c p b)) =
     (if k < length (Split_lines c) \<and>
         n \<in> set (find_tags template_first template_rest (Split_lines c ! k)) \<and> \<not> isHTMLTag U n
      then 1 else 0) \<and>
   length (filter (\<lambda>m. ComponentName m = n \<and> Line m = b + int k) (parseJSXComponents c p b)) =
     (if k < length (Split_lines c) \<and> n \<in> set (find_tags jsx_first jsx_rest (Split_lines c ! k))
      then 1 else 0) \<and>
   length (filter (\<lambda>m. ComponentName m = n \<and> Line m = b + int k) (parseReactJSXComponents c p b)) =
     (if k < length (Split_lines c) \<and> n \<in> set (find_tags jsx_first jsx_rest (Split_lines c ! k))
      then 1 else 0)"
proof -
  have inv: "\<forall>(n, j) \<in> ({} :: (string \<times> nat) set). j < 0" by simp
  have 1: "length (filter (\<lambda>m. ComponentName m = n \<and> Line m = b + int k) (parseTemplateComponents U c p b)) =
     (if k < length (Split_lines c) \<and>
         n \<in> set (find_tags template_first template_rest (Split_lines c ! k)) \<and> \<not> isHTMLTag U n
      then 1 else 0)"
    unfolding parseTemplateComponents_def by (subst line_loop_count [OF inv]) simp
  have 2: "length (filter (\<lambda>m. ComponentName m = n \<and> Line m = b + int k) (parseJSXComponents c p b)) =
     (if k < length (Split_lines c) \<and> n \<in> set (find_tags jsx_first jsx_rest (Split_lines c ! k))
      then 1 else 0)"
    unfolding parseJSXComponents_def by (subst line_loop_count [OF inv]) simp
  have 3: "length (filter (\<lambda>m. ComponentName m = n \<and> Line m = b + int k) (parseReactJSXComponents c p b)) =
     (if k < length (Split_lines c) \<and> n \<in> set (find_tags jsx_first jsx_rest (Split_lines c ! k))
      then 1 else 0)"
    unfolding parseReactJSXComponents_def by (subst line_loop_count [OF inv]) simp
  from 1 2 3 show ?thesis by blast
qed

text \<open>Two lines, with a repeated name on the first, in each of the passes.\<close>

theorem per_line_dedup_witness:
  "parseTemplateComponents example_tables (''<q-btn/><q-btn/><div><q-card/>'' @ newline # ''<q-btn>'') ''f.vue'' 3 =
     [\<lparr>FilePath = ''f.vue'', Line = 3, ComponentName = ''q-btn'', ComponentType = ''''\<rparr>,
      \<lparr>FilePath = ''f.vue'', Line = 3, ComponentName = ''q-card'', ComponentType = ''''\<rparr>,
      \<lparr>FilePath = ''f.vue'', Line = 4, ComponentName = ''q-btn'', ComponentType = ''''\<rparr>] \<and>
   length (filter (\<lambda>m. ComponentName m = ''q-btn'' \<and> Line m = 3 + int 0)
     (parseTemplateComponents example_tables (''<q-btn/><q-btn/><div><q-card/>'' @ newline # ''<q-btn>'') ''f.vue'' 3)) = 1 \<and>
   length (filter (\<lambda>m. ComponentName m = ''A'' \<and> Line m = 7 + int 1)
     (parseJSXComponents (''<A/><A/><B/>'' @ newline # ''<A>'') ''f.vue'' 7)) = 1 \<and>
   length (filter (\<lambda>m. ComponentName m = ''B'' \<and> Line m = 1 + int 1)
     (parseReactJSXComponents (''<A/><A/><B/>'' @ newline # ''<A>'') ''f.tsx'' 1)) = 0"
proof -
  have ev: "parseTemplateComponents example_tables (''<q-btn/><q-btn/><div><q-card/>'' @ newline # ''<q-btn>'') ''f.vue'' 3 =
     [\<lparr>FilePath = ''f.vue'', Line = 3, ComponentName = ''q-btn'', ComponentType = ''''\<rparr>,
      \<lparr>FilePath = ''f.vue'', Line = 3, ComponentName = ''q-card'', ComponentType = ''''\<rparr>,
      \<lparr>FilePath = ''f.vue'', Line = 4, ComponentName = ''q-btn'', ComponentType = ''''\<rparr>]"
    by code_simp
  have r1: "(if 0 < length (Split_lines (''<q-btn/><q-btn/><div><q-card/>'' @ newline # ''<q-btn>'')) \<and>
         ''q-btn'' \<in> set (find_tags template_first template_rest
            (Split_lines (''<q-btn/><q-btn/><div><q-card/>'' @ newline # ''<q-btn>'') ! 0)) \<and>
         \<not> isHTMLTag example_tables ''q-btn''
      then 1 else 0) = (1 :: nat)"
    by code_simp
  have r2: "(if 1 < length (Split_lines (''<A/><A/><B/>'' @ newline # ''<A>'')) \<and>
         ''A'' \<in> set (find_tags jsx_first jsx_rest (Split_lines (''<A/><A/><B/>'' @ newline # ''<A>'') ! 1))
      then 1 else 0) = (1 :: nat)"
    by code_simp
  have r3: "(if 1 < length (Split_lines (''<A/><A/><B/>'' @ newline # ''<A>'')) \<and>
         ''B'' \<in> set (find_tags jsx_first jsx_rest (Split_lines (''<A/><A/><B/>'' @ newline # ''<A>'') ! 1))
      then 1 else 0) = (0 :: nat)"
    by code_simp
  from per_line_dedup [of "''q-btn''" 3 0 example_tables "''<q-btn/><q-btn/><div><q-card/>'' @ newline # ''<q-btn>''" "''f.vue''"]
  have c1: "length (filter (\<lambda>m. ComponentName m = ''q-btn'' \<and> Line m = 3 + int 0)
     (parseTemplateComponents example_tables (''<q-btn/><q-btn/><div><q-card/>'' @ newline # ''<q-btn>'') ''f.vue'' 3)) = 1"
    using r1 by simp
  from per_line_dedup [of "''A''" 7 1 example_tables "''<A/><A/><B/>'' @ newline # ''<A>''" "''f.vue''"]
  have c2: "length (filter (\<lambda>m. ComponentName m = ''A'' \<and> Line m = 7 + int 1)
     (parseJSXComponents (''<A/><A/><B/>'' @ newline # ''<A>'') ''f.vue'' 7)) = 1"
    using r2 by simp
  from per_line_dedup [of "''B''" 1 1 example_tables "''<A/><A/><B/>'' @ newline # ''<A>''" "''f.tsx''"]
  have c3: "length (filter (\<lambda>m. ComponentName m = ''B'' \<and> Line m = 1 + int 1)
     (parseReactJSXComponents (''<A/><A/><B/>'' @ newline # ''<A>'') ''f.tsx'' 1)) = 0"
    using r3 by simp
  from ev c1 c2 c3 show ?thesis by blast
qed

text \<open>A name found by \<open>find_tags\<close> starts with a byte of the first class.\<close>

lemma find_tags_first: "n \<in> set (find_tags f r s) \<Longrightarrow> n \<noteq> [] \<and> f (hd n)"
proof (induction f r s rule: find_tags.induct)
  case (1 first rest)
  then show ?case by simp
next
  case (2 first rest c cs)
  show ?case
  proof (cases "c = CHR ''<''")
    case False
    with 2 show ?thesis by simp
  next
    case lt: True
    show ?thesis
    proof (cases cs)
      case Nil
      with lt "2.prems" show ?thesis by simp
    next
      case (Cons d ds)
      show ?thesis
      proof (cases "first d")
        case False
        with lt Cons "2.prems" "2.IH"(3) show ?thesis by simp
      next
        case fd: True
        show ?thesis
        proof (cases "dropWhile rest ds")
          case Nil
          with lt Cons fd "2.prems" show ?thesis by auto
        next
          case dw: (Cons t ts)
          show ?thesis
          proof (cases "is_tag_end t")
            case True
            with lt Cons fd dw "2.prems" "2.IH"(1) show ?thesis by auto
          next
            case False
            with lt Cons fd dw "2.prems" "2.IH"(2) show ?thesis by simp
          qed
        qed
      qed
    qed
  qed
qed

lemma htmlTags_not_upper: "t \<in> set htmlTags \<Longrightarrow> \<not> is_upper (hd t)"
proof -
  have "list_all (\<lambda>t. \<not> is_upper (hd t)) htmlTags" by code_simp
  then show "t \<in> set htmlTags \<Longrightarrow> \<not> is_upper (hd t)" by (simp add: list_all_iff)
qed

lemma jsx_name_not_html: "n \<in> set (find_tags jsx_first jsx_rest s) \<Longrightarrow> n \<notin> set htmlTags"
  using find_tags_first [of n jsx_first jsx_rest s] htmlTags_not_upper [of n]
  by (auto simp: jsx_first_def)

text \<open>
  Claim C4. The test \<open>isHTMLTag\<close> of the template pass is exact membership in the
  denylist. A match is reported by the template pass exactly when it is the match of a
  candidate of some line whose name is not in the denylist: so no reported match has a
  name of the denylist, and a candidate whose lower-case form is in the denylist but which
  is itself not in lower case (such as \<open>Div\<close>) is reported.
\<close>

theorem denylist_exclusion:
  "(isHTMLTag U n \<longleftrightarrow> n \<in> set htmlTags) \<and>
   (m \<in> set (parseTemplateComponents U c p b) \<longleftrightarrow>
      (\<exists>j n. j < length (Split_lines c) \<and>
             n \<in> set (find_tags template_first template_rest (Split_lines c ! j)) \<and>
             n \<notin> set htmlTags \<and>
             m = \<lparr>FilePath = p, Line = b + int j, ComponentName = n, ComponentType = ''''\<rparr>)) \<and>
   (m \<in> set (parseTemplateComponents U c p b) \<longrightarrow> ComponentName m \<notin> set htmlTags) \<and>
   (j < length (Split_lines c) \<and>
    n \<in> set (find_tags template_first template_rest (Split_lines c ! j)) \<and>
    ToLower U n \<in> set htmlTags \<and> ToLower U n \<noteq> n \<longrightarrow>
      \<lparr>FilePath = p, Line = b + int j, ComponentName = n, ComponentType = ''''\<rparr>
        \<in> set (parseTemplateComponents U c p b))"
proof -
  have a: "isHTMLTag U n \<longleftrightarrow> n \<in> set htmlTags" by (rule isHTMLTag_iff)
  have b: "m \<in> set (parseTemplateComponents U c p b) \<longleftrightarrow>
      (\<exists>j n. j < length (Split_lines c) \<and>
             n \<in> set (find_tags template_first template_rest (Split_lines c ! j)) \<and>
             n \<notin> set htmlTags \<and>
             m = \<lparr>FilePath = p, Line = b + int j, ComponentName = n, ComponentType = ''''\<rparr>)"
    unfolding parseTemplateComponents_set isHTMLTag_iff by blast
  have c: "m \<in> set (parseTemplateComponents U c p b) \<longrightarrow> ComponentName m \<notin> set htmlTags"
    unfolding b by auto
  have "n \<notin> set htmlTags" if "ToLower U n \<noteq> n"
    using that htmlTags_lower [of n U] by blast
  then have d: "j < length (Split_lines c) \<and>
    n \<in> set (find_tags template_first template_rest (Split_lines c ! j)) \<and>
    ToLower U n \<in> set htmlTags \<and> ToLower U n \<noteq> n \<longrightarrow>
      \<lparr>FilePath = p, Line = b + int j, ComponentName = n, ComponentType = ''''\<rparr>
        \<in> set (parseTemplateComponents U c p b)"
    unfolding parseTemplateComponents_set isHTMLTag_iff by blast
  from a b c d show ?thesis by blast
qed

text \<open>One line with \<open>div\<close>, \<open>Div\<close>, \<open>form\<close> and a component.\<close>

theorem denylist_exclusion_witness:
  "parseTemplateComponents example_tables ''<div><Div class=\"a\"/><form/><q-card>'' ''f.vue'' 2 =
     [\<lparr>FilePath = ''f.vue'', Line = 2, ComponentName = ''Div'', ComponentType = ''''\<rparr>,
      \<lparr>FilePath = ''f.vue'', Line = 2, ComponentName = ''q-card'', ComponentType = ''''\<rparr>] \<and>
   ''div'' \<in> set htmlTags \<and> isHTMLTag example_tables ''div'' \<and>
   \<lparr>FilePath = ''f.vue'', Line = 2, ComponentName = ''q-card'', ComponentType = ''''\<rparr>
      \<in> set (parseTemplateComponents example_tables ''<div><Div class=\"a\"/><form/><q-card>'' ''f.vue'' 2) \<and>
   ''q-card'' \<notin> set htmlTags \<and>
   0 < length (Split_lines ''<div><Div class=\"a\"/><form/><q-card>'') \<and>
   ''Div'' \<in> set (find_tags template_first template_rest
      (Split_lines ''<div><Div class=\"a\"/><form/><q-card>'' ! 0)) \<and>
   ToLower example_tables ''Div'' \<in> set htmlTags \<and> ToLower example_tables ''Div'' \<noteq> ''Div'' \<and>
   \<lparr>FilePath = ''f.vue'', Line = 2 + int 0, ComponentName = ''Div'', ComponentType = ''''\<rparr>
      \<in> set (parseTemplateComponents example_tables ''<div><Div class=\"a\"/><form/><q-card>'' ''f.vue'' 2)"
proof -
  let ?c = "''<div><Div class=\"a\"/><form/><q-card>''"
  let ?m = "\<lparr>FilePath = ''f.vue'', Line = 2, ComponentName = ''q-card'', ComponentType = ''''\<rparr>"
  have ev: "parseTemplateComponents example_tables ?c ''f.vue'' 2 =
     [\<lparr>FilePath = ''f.vue'', Line = 2, ComponentName = ''Div'', ComponentType = ''''\<rparr>, ?m]"
    by code_simp
  have h1: "''div'' \<in> set htmlTags" by code_simp
  have h2: "?m \<in> set (parseTemplateComponents example_tables ?c ''f.vue'' 2)" by (simp add: ev)
  have h3: "0 < length (Split_lines ?c)" by code_simp
  have h4: "''Div'' \<in> set (find_tags template_first template_rest (Split_lines ?c ! 0))" by code_simp
  have h5: "ToLower example_tables ''Div'' \<in> set htmlTags" by code_simp
  have h6: "ToLower example_tables ''Div'' \<noteq> ''Div''" by code_simp
  note T1 = denylist_exclusion [of example_tables "''div''" ?m ?c "''f.vue''" 2 0]
  note T2 = denylist_exclusion [of example_tables "''Div''" ?m ?c "''f.vue''" 2 0]
  from T1 h1 have c1: "isHTMLTag example_tables ''div''" by blast
  from T1 h2 have c2: "''q-card'' \<notin> set htmlTags" by simp
  from T2 h3 h4 h5 h6 have c3:
    "\<lparr>FilePath = ''f.vue'', Line = 2 + int 0, ComponentName = ''Div'', ComponentType = ''''\<rparr>
      \<in> set (parseTemplateComponents example_tables ?c ''f.vue'' 2)" by blast
  from ev h1 c1 h2 c2 h3 h4 h5 h6 c3 show ?thesis by blast
qed

section \<open>Properties of a scan\<close>

text \<open>
  The collecting loop appends what it receives; the parser chosen for a path is the first
  that supports it; the slice a goroutine sends is what the specification says the file
  contributes.
\<close>

lemma collect_eq: "collect received allMatches = allMatches @ concat received"
  by (induction received arbitrary: allMatches) auto

lemma select_parser_find: "select_parser ps path = find (\<lambda>p. SupportsFile p path) ps"
  by (induction ps) auto

lemma select_parser_mem: "select_parser ps path = Some p \<Longrightarrow> p \<in> set ps"
  by (induction ps) (auto split: if_splits)

lemma scan_file_spec: "mset (scan_file U s ReadFile ty path) = spec_file_matches U s ReadFile ty path"
  by (simp add: scan_file_def spec_file_matches_def select_parser_find filterByComponentType_def
        filter_loop_eq split: option.splits sum.splits)

lemma mset_concat_map:
  "mset (concat (map f xs)) = sum_mset (image_mset (\<lambda>x. mset (f x)) (mset xs))"
  by (induction xs) auto

lemma Scan_Matches:
  "Scan U s ReadFile arrival elapsed files ty =
     Inr \<lparr>Matches = concat (map (scan_file U s ReadFile ty) arrival),
          TotalCount = int (length (concat (map (scan_file U s ReadFile ty) arrival))),
          ScanTimeMs = elapsed,
          ResultComponentType = ty,
          ScannedFiles = int (length files)\<rparr>"
  by (simp add: Scan_def collect_eq Let_def)

text \<open>
  Claim C1. For every list of paths, every requested type and every order of arrival,
  \<open>Scan\<close> returns a result whose \<open>ScannedFiles\<close> is the length of the input list,
  whose \<open>TotalCount\<close> is the length of its \<open>Matches\<close>, whose component type is the
  requested type, and whose \<open>Matches\<close>, as a multiset, are the sum over the input files
  of the contribution of each file as the specification describes it.
\<close>

theorem Scan_result:
  assumes "is_arrival_order files arrival"
  shows "\<exists>r. Scan U s ReadFile arrival elapsed files ty = Inr r \<and>
             ScannedFiles r = int (length files) \<and>
             TotalCount r = int (length (Matches r)) \<and>
             ResultComponentType r = ty \<and>
             mset (Matches r) = sum_mset (image_mset (spec_file_matches U s ReadFile ty) (mset files))"
proof -
  let ?all = "concat (map (scan_file U s ReadFile ty) arrival)"
  have "mset ?all = sum_mset (image_mset (\<lambda>x. mset (scan_file U s ReadFile ty x)) (mset arrival))"
    by (rule mset_concat_map)
  also have "\<dots> = sum_mset (image_mset (spec_file_matches U s ReadFile ty) (mset files))"
    using assms by (simp add: is_arrival_order_def scan_file_spec)
  finally have "mset ?all = sum_mset (image_mset (spec_file_matches U s ReadFile ty) (mset files))" .
  then show ?thesis by (simp add: Scan_Matches)
qed

text \<open>
  A Vue file with a form, a React file with a button, a missing file and a file no parser
  supports, scanned for \<open>form\<close>.
\<close>

theorem Scan_result_witness:
  "is_arrival_order [''a.vue'', ''b.tsx'', ''gone.vue'', ''notes.txt'']
                    [''b.tsx'', ''notes.txt'', ''a.vue'', ''gone.vue''] \<and>
   Scan example_tables (NewComponentScanner [NewVueParser example_tables, NewReactParser example_tables] NewComponentMappingRegistry)
        (\<lambda>p. if p = ''a.vue'' then Inr ''<template><q-form><input type=\"text\" /></q-form></template>''
             else if p = ''b.tsx'' then Inr ''<Button>Click me</Button>''
             else if p = ''notes.txt'' then Inr ''<Form>''
             else Inl (Error ''no such file''))
        [''b.tsx'', ''notes.txt'', ''a.vue'', ''gone.vue''] 7
        [''a.vue'', ''b.tsx'', ''gone.vue'', ''notes.txt''] ''form'' =
     Inr \<lparr>Matches = [\<lparr>FilePath = ''a.vue'', Line = 1, ComponentName = ''q-form'', ComponentType = ''form''\<rparr>],
          TotalCount = 1, ScanTimeMs = 7, ResultComponentType = ''form'', ScannedFiles = 4\<rparr> \<and>
   (\<exists>r. Scan example_tables (NewComponentScanner [NewVueParser example_tables, NewReactParser example_tables] NewComponentMappingRegistry)
        (\<lambda>p. if p = ''a.vue'' then Inr ''<template><q-form><input type=\"text\" /></q-form></template>''
             else if p = ''b.tsx'' then Inr ''<Button>Click me</Button>''
             else if p = ''notes.txt'' then Inr ''<Form>''
             else Inl (Error ''no such file''))
        [''b.tsx'', ''notes.txt'', ''a.vue'', ''gone.vue''] 7
        [''a.vue'', ''b.tsx'', ''gone.vue'', ''notes.txt''] ''form'' = Inr r \<and>
      ScannedFiles r = int (length [''a.vue'', ''b.tsx'', ''gone.vue'', ''notes.txt'']) \<and>
      TotalCount r = int (length (Matches r)) \<and>
      ResultComponentType r = ''form'' \<and>
      mset (Matches r) =
        sum_mset (image_mset
          (spec_file_matches example_tables (NewComponentScanner [NewVueParser example_tables, NewReactParser example_tables] NewComponentMappingRegistry)
            (\<lambda>p. if p = ''a.vue'' then Inr ''<template><q-form><input type=\"text\" /></q-form></template>''
             else if p = ''b.tsx'' then Inr ''<Button>Click me</Button>''
             else if p = ''notes.txt'' then Inr ''<Form>''
             else Inl (Error ''no such file'')) ''form'')
          (mset [''a.vue'', ''b.tsx'', ''gone.vue'', ''notes.txt''])))"
proof -
  have h: "is_arrival_order [''a.vue'', ''b.tsx'', ''gone.vue'', ''notes.txt'']
                    [''b.tsx'', ''notes.txt'', ''a.vue'', ''gone.vue'']"
    by (simp add: is_arrival_order_def)
  have ev: "Scan example_tables (NewComponentScanner [NewVueParser example_tables, NewReactParser example_tables] NewComponentMappingRegistry)
        (\<lambda>p. if p = ''a.vue'' then Inr ''<template><q-form><input type=\"text\" /></q-form></template>''
             else if p = ''b.tsx'' then Inr ''<Button>Click me</Button>''
             else if p = ''notes.txt'' then Inr ''<Form>''
             else Inl (Error ''no such file''))
        [''b.tsx'', ''notes.txt'', ''a.vue'', ''gone.vue''] 7
        [''a.vue'', ''b.tsx'', ''gone.vue'', ''notes.txt''] ''form'' =
     Inr \<lparr>Matches = [\<lparr>FilePath = ''a.vue'', Line = 1, ComponentName = ''q-form'', ComponentType = ''form''\<rparr>],
          TotalCount = 1, ScanTimeMs = 7, ResultComponentType = ''form'', ScannedFiles = 4\<rparr>"
    by code_simp
  show ?thesis
    by (intro conjI h ev Scan_result [OF h])
qed

text \<open>
  Claim C8. Scanning the empty list of files returns, without an error, a result with no
  matches, a total count of zero, zero scanned files and the requested component type.
\<close>

theorem Scan_empty:
  assumes "is_arrival_order [] arrival"
  shows "Scan U s ReadFile arrival elapsed [] ty =
           Inr \<lparr>Matches = [], TotalCount = 0, ScanTimeMs = elapsed,
                ResultComponentType = ty, ScannedFiles = 0\<rparr>"
proof -
  from assms have "arrival = []" by (simp add: is_arrival_order_def)
  then show ?thesis by (simp add: Scan_Matches)
qed

text \<open>
  The empty scan with the parsers of the command line.
\<close>

theorem Scan_empty_witness:
  "is_arrival_order [] [] \<and>
   Scan example_tables (NewComponentScanner [NewVueParser example_tables, NewReactParser example_tables] NewComponentMappingRegistry)
        (\<lambda>p. Inl (Error ''no such file'')) [] 0 [] ''button'' =
     Inr \<lparr>Matches = [], TotalCount = 0, ScanTimeMs = 0,
          ResultComponentType = ''button'', ScannedFiles = 0\<rparr>"
proof -
  have h: "is_arrival_order [] []" by (simp add: is_arrival_order_def)
  show ?thesis by (intro conjI h Scan_empty [OF h])
qed

text \<open>No parser is found exactly when no parser of the list supports the path.\<close>

lemma find_None_supports:
  "find (\<lambda>p. SupportsFile p path) ps = None \<longleftrightarrow> (\<forall>p\<in>set ps. \<not> SupportsFile p path)"
  by (auto simp: find_None_iff)

text \<open>
  Claim C7. \<open>Scan\<close> returns a result and never an error. A path that none of the
  scanner's parsers supports, a file that cannot be read and a file whose parsing fails
  each contribute the empty slice, so the matches of the result are the contributions, as
  the specification describes them, of the files that some parser supports and that could
  be read; the count of scanned files is still the length of the input.
\<close>

theorem Scan_absorbs_failures:
  assumes "is_arrival_order files arrival"
  shows "(\<exists>r. Scan U s ReadFile arrival elapsed files ty = Inr r \<and>
              ScannedFiles r = int (length files) \<and>
              mset (Matches r) =
                sum_mset (image_mset (spec_file_matches U s ReadFile ty)
                  (mset (filter (\<lambda>path. (\<exists>p\<in>set (parsers s). SupportsFile p path) \<and>
                                        \<not> isl (ReadFile path)) files)))) \<and>
         (\<forall>path. (\<forall>p\<in>set (parsers s). \<not> SupportsFile p path) \<or> isl (ReadFile path) \<or>
                 (\<exists>parser content. find (\<lambda>p. SupportsFile p path) (parsers s) = Some parser \<and>
                    ReadFile path = Inr content \<and> isl (Parse parser content path)) \<longrightarrow>
              scan_file U s ReadFile ty path = [])"
proof -
  let ?ok = "\<lambda>path. (\<exists>p\<in>set (parsers s). SupportsFile p path) \<and> \<not> isl (ReadFile path)"
  have zero: "scan_file U s ReadFile ty path = []" if "\<not> ?ok path" for path
  proof (cases "\<exists>p\<in>set (parsers s). SupportsFile p path")
    case False
    then have "select_parser (parsers s) path = None"
      by (auto simp: select_parser_find find_None_iff)
    then show ?thesis by (simp add: scan_file_def)
  next
    case True
    with that have "isl (ReadFile path)" by simp
    then show ?thesis by (auto simp: scan_file_def isl_def split: option.splits)
  qed
  have zero_spec: "spec_file_matches U s ReadFile ty path = {#}" if "\<not> ?ok path" for path
    using zero [OF that] scan_file_spec [of U s ReadFile ty path] by simp
  have part: "sum_mset (image_mset (spec_file_matches U s ReadFile ty) (mset xs)) =
        sum_mset (image_mset (spec_file_matches U s ReadFile ty) (mset (filter ?ok xs)))" for xs
    by (induction xs) (auto simp: zero_spec)
  let ?all = "concat (map (scan_file U s ReadFile ty) arrival)"
  have "mset ?all = sum_mset (image_mset (\<lambda>x. mset (scan_file U s ReadFile ty x)) (mset arrival))"
    by (rule mset_concat_map)
  also have "\<dots> = sum_mset (image_mset (spec_file_matches U s ReadFile ty) (mset files))"
    using assms by (simp add: is_arrival_order_def scan_file_spec)
  also have "\<dots> = sum_mset (image_mset (spec_file_matches U s ReadFile ty) (mset (filter ?ok files)))"
    by (rule part)
  finally have "mset ?all =
      sum_mset (image_mset (spec_file_matches U s ReadFile ty) (mset (filter ?ok files)))" .
  then have 1: "\<exists>r. Scan U s ReadFile arrival elapsed files ty = Inr r \<and>
              ScannedFiles r = int (length files) \<and>
              mset (Matches r) =
                sum_mset (image_mset (spec_file_matches U s ReadFile ty) (mset (filter ?ok files)))"
    by (simp add: Scan_Matches)
  have parse_fail: "scan_file U s ReadFile ty path = []"
    if "find (\<lambda>p. SupportsFile p path) (parsers s) = Some parser" "ReadFile path = Inr content"
       "isl (Parse parser content path)" for path parser content
    using that by (auto simp: scan_file_def select_parser_find isl_def)
  have 2: "\<forall>path. (\<forall>p\<in>set (parsers s). \<not> SupportsFile p path) \<or> isl (ReadFile path) \<or>
                 (\<exists>parser content. find (\<lambda>p. SupportsFile p path) (parsers s) = Some parser \<and>
                    ReadFile path = Inr content \<and> isl (Parse parser content path)) \<longrightarrow>
              scan_file U s ReadFile ty path = []"
    using zero parse_fail by blast
  from 1 2 show ?thesis by (rule conjI)
qed

text \<open>
  One valid file and one path that does not exist; then the same with a third file that
  is readable and has a form in it, but that no parser supports.
\<close>

theorem Scan_absorbs_failures_witness:
  "is_arrival_order [''a.vue'', ''gone.vue''] [''gone.vue'', ''a.vue''] \<and>
   Scan example_tables (NewComponentScanner [NewVueParser example_tables, NewReactParser example_tables] NewComponentMappingRegistry)
     (\<lambda>p. if p = ''a.vue'' \<or> p = ''notes.txt''
           then Inr ''<template><q-form><input type=\"text\" /></q-form></template>''
           else Inl (Error ''no such file''))
     [''gone.vue'', ''a.vue''] 3 [''a.vue'', ''gone.vue''] ''form'' =
     Inr \<lparr>Matches = [\<lparr>FilePath = ''a.vue'', Line = 1, ComponentName = ''q-form'', ComponentType = ''form''\<rparr>],
          TotalCount = 1, ScanTimeMs = 3, ResultComponentType = ''form'', ScannedFiles = 2\<rparr> \<and>
   is_arrival_order [''a.vue'', ''gone.vue'', ''notes.txt''] [''notes.txt'', ''gone.vue'', ''a.vue''] \<and>
   Scan example_tables (NewComponentScanner [NewVueParser example_tables, NewReactParser example_tables] NewComponentMappingRegistry)
     (\<lambda>p. if p = ''a.vue'' \<or> p = ''notes.txt''
           then Inr ''<template><q-form><input type=\"text\" /></q-form></template>''
           else Inl (Error ''no such file''))
     [''notes.txt'', ''gone.vue'', ''a.vue''] 5 [''a.vue'', ''gone.vue'', ''notes.txt''] ''form'' =
     Inr \<lparr>Matches = [\<lparr>FilePath = ''a.vue'', Line = 1, ComponentName = ''q-form'', ComponentType = ''form''\<rparr>],
          TotalCount = 1, ScanTimeMs = 5, ResultComponentType = ''form'', ScannedFiles = 3\<rparr> \<and>
   scan_file example_tables (NewComponentScanner [NewVueParser example_tables, NewReactParser example_tables] NewComponentMappingRegistry)
     (\<lambda>p. if p = ''a.vue'' \<or> p = ''notes.txt''
           then Inr ''<template><q-form><input type=\"text\" /></q-form></template>''
           else Inl (Error ''no such file''))
     ''form'' ''gone.vue'' = [] \<and>
   scan_file example_tables (NewComponentScanner [NewVueParser example_tables, NewReactParser example_tables] NewComponentMappingRegistry)
     (\<lambda>p. if p = ''a.vue'' \<or> p = ''notes.txt''
           then Inr ''<template><q-form><input type=\"text\" /></q-form></template>''
           else Inl (Error ''no such file''))
     ''form'' ''notes.txt'' = []"
proof -
  let ?s = "NewComponentScanner [NewVueParser example_tables, NewReactParser example_tables] NewComponentMappingRegistry"
  let ?rf = "\<lambda>p. if p = ''a.vue'' \<or> p = ''notes.txt''
             then Inr ''<template><q-form><input type=\"text\" /></q-form></template>''
             else Inl (Error ''no such file'')"
  have h2: "is_arrival_order [''a.vue'', ''gone.vue''] [''gone.vue'', ''a.vue'']"
    by (simp add: is_arrival_order_def)
  have h3: "is_arrival_order [''a.vue'', ''gone.vue'', ''notes.txt''] [''notes.txt'', ''gone.vue'', ''a.vue'']"
    by (simp add: is_arrival_order_def)
  have ev2: "Scan example_tables ?s ?rf [''gone.vue'', ''a.vue''] 3 [''a.vue'', ''gone.vue''] ''form'' =
     Inr \<lparr>Matches = [\<lparr>FilePath = ''a.vue'', Line = 1, ComponentName = ''q-form'', ComponentType = ''form''\<rparr>],
          TotalCount = 1, ScanTimeMs = 3, ResultComponentType = ''form'', ScannedFiles = 2\<rparr>"
    by code_simp
  have ev3: "Scan example_tables ?s ?rf [''notes.txt'', ''gone.vue'', ''a.vue''] 5 [''a.vue'', ''gone.vue'', ''notes.txt''] ''form'' =
     Inr \<lparr>Matches = [\<lparr>FilePath = ''a.vue'', Line = 1, ComponentName = ''q-form'', ComponentType = ''form''\<rparr>],
          TotalCount = 1, ScanTimeMs = 5, ResultComponentType = ''form'', ScannedFiles = 3\<rparr>"
    by code_simp
  have unreadable: "isl (?rf ''gone.vue'')" by simp
  have unsupported: "\<forall>p\<in>set (parsers ?s). \<not> SupportsFile p ''notes.txt''"
    by code_simp
  note T = Scan_absorbs_failures [OF h3, where U = example_tables and s = ?s and ReadFile = ?rf
      and ty = "''form''"]
  from T unreadable have gone: "scan_file example_tables ?s ?rf ''form'' ''gone.vue'' = []"
    by blast
  from T unsupported have unsup: "scan_file example_tables ?s ?rf ''form'' ''notes.txt'' = []"
    by blast
  show ?thesis
    apply (intro conjI)
    apply (rule h2)
    apply (rule ev2)
    apply (rule h3)
    apply (rule ev3)
    apply (rule gone)
    apply (rule unsup)
    done
qed

section \<open>Lines and regions\<close>

text \<open>Splitting at newlines gives one line more than there are newlines.\<close>

lemma Count_newlines_append: "Count_newlines (xs @ ys) = Count_newlines xs + Count_newlines ys"
  by (simp add: Count_newlines_def)

lemma Count_newlines_takeWhile: "Count_newlines (takeWhile (\<lambda>c. c \<noteq> newline) s) = 0"
  by (induction s) (auto simp: Count_newlines_def)

lemma length_Split_lines: "length (Split_lines s) = Count_newlines s + 1"
proof (induction s rule: Split_lines.induct)
  case (1 s)
  have split: "s = takeWhile (\<lambda>c. c \<noteq> newline) s @ dropWhile (\<lambda>c. c \<noteq> newline) s"
    by simp
  show ?case
  proof (cases "dropWhile (\<lambda>c. c \<noteq> newline) s")
    case Nil
    then have "Count_newlines s = 0"
      using split Count_newlines_takeWhile [of s] by (metis append_Nil2)
    moreover have "Split_lines s = [s]"
      unfolding Split_lines.simps [of s] Nil by simp
    ultimately show ?thesis by simp
  next
    case (Cons x r)
    then have x: "x = newline"
      using hd_dropWhile [of "\<lambda>c. c \<noteq> newline" s] by auto
    have "Count_newlines s = Count_newlines (takeWhile (\<lambda>c. c \<noteq> newline) s) + Count_newlines (x # r)"
      using split Cons Count_newlines_append by metis
    then have "Count_newlines s = Count_newlines r + 1"
      using x by (simp add: Count_newlines_takeWhile) (simp add: Count_newlines_def)
    moreover have "Split_lines s = takeWhile (\<lambda>c. c \<noteq> newline) s # Split_lines r"
      unfolding Split_lines.simps [of s] Cons by simp
    ultimately show ?thesis using "1.IH" [OF Cons] by simp
  qed
qed

lemma Split_lines_first:
  assumes "newline \<notin> set l"
  shows "Split_lines (l @ newline # rest) = l # Split_lines rest"
proof -
  have all: "\<And>x. x \<in> set l \<Longrightarrow> x \<noteq> newline" using assms by blast
  have "takeWhile (\<lambda>c. c \<noteq> newline) (l @ newline # rest) = l @ takeWhile (\<lambda>c. c \<noteq> newline) (newline # rest)"
    by (rule takeWhile_append2) (rule all)
  then have t: "takeWhile (\<lambda>c. c \<noteq> newline) (l @ newline # rest) = l" by simp
  have "dropWhile (\<lambda>c. c \<noteq> newline) (l @ newline # rest) = dropWhile (\<lambda>c. c \<noteq> newline) (newline # rest)"
    by (rule dropWhile_append2) (rule all)
  then have d: "dropWhile (\<lambda>c. c \<noteq> newline) (l @ newline # rest) = newline # rest" by simp
  show ?thesis unfolding Split_lines.simps [of "l @ newline # rest"] t d by simp
qed

text \<open>The offsets of a region lie inside the text, the start before the end.\<close>

lemma find_literal_bound: "find_literal pat s = Some k \<Longrightarrow> k \<le> length s"
  by (induction s arbitrary: k) (auto split: if_splits)

lemma region_at_bound:
  assumes "region_at opening closing s = Some (a, b)"
  shows "a \<le> b \<and> b \<le> length s"
proof -
  let ?s1 = "drop (length opening) s"
  let ?attrs = "takeWhile (\<lambda>c. c \<noteq> CHR ''>'') ?s1"
  have pre: "prefix opening s"
  proof (rule ccontr)
    assume "\<not> prefix opening s"
    then have "region_at opening closing s = None" by (simp add: region_at_def)
    with assms show False by simp
  qed
  show ?thesis
  proof (cases "dropWhile (\<lambda>c. c \<noteq> CHR ''>'') ?s1")
    case Nil
    then have "region_at opening closing s = None" using pre
      unfolding region_at_def Let_def by (simp only: if_True list.case)
    with assms show ?thesis by simp
  next
    case (Cons x body)
    have eq: "region_at opening closing s =
        (case find_literal closing body of
           None \<Rightarrow> None
         | Some k \<Rightarrow> Some (length opening + length ?attrs + 1, length opening + length ?attrs + 1 + k))"
      using pre unfolding region_at_def Let_def Cons by (simp only: if_True list.case)
    show ?thesis
    proof (cases "find_literal closing body")
      case None
      with eq assms show ?thesis by simp
    next
      case (Some k)
      with eq assms have a: "a = length opening + length ?attrs + 1"
        and b: "b = length opening + length ?attrs + 1 + k" by simp_all
      have "length ?s1 = length ?attrs + length (x # body)"
        using Cons by (metis length_append takeWhile_dropWhile_id)
      then have 1: "length ?s1 = length ?attrs + 1 + length body"
        by (simp only: length_Cons)
      have "s = opening @ ?s1"
        using pre by (auto simp: prefix_def)
      then have "length s = length (opening @ ?s1)" by (rule arg_cong)
      then have 2: "length s = length opening + length ?s1"
        by (simp only: length_append)
      have 3: "k \<le> length body" using Some by (rule find_literal_bound)
      from 1 2 3 a b show ?thesis by linarith
    qed
  qed
qed

lemma find_region_bound:
  "find_region opening closing off s = Some (a, b) \<Longrightarrow> off \<le> a \<and> a \<le> b \<and> b \<le> off + length s"
proof (induction s arbitrary: off)
  case Nil
  then show ?case by (auto dest: region_at_bound)
next
  case (Cons c cs)
  show ?case
  proof (cases "region_at opening closing (c # cs)")
    case None
    with Cons.prems have "find_region opening closing (Suc off) cs = Some (a, b)" by simp
    from Cons.IH [OF this] show ?thesis by simp
  next
    case (Some ab)
    obtain a' b' where ab: "ab = (a', b')" by (cases ab)
    from Some ab have "region_at opening closing (c # cs) = Some (a', b')" by simp
    from region_at_bound [OF this]
    have "a' \<le> b' \<and> b' \<le> length (c # cs)" .
    with Cons.prems Some ab show ?thesis by auto
  qed
qed

text \<open>A region that was found starts on a line of the file and ends on one.\<close>

lemma extract_section_lines:
  assumes "extract_section opening closing content = (tc, base)" and "tc \<noteq> []"
  shows "1 \<le> base \<and> base + int (Count_newlines tc) \<le> int (Count_newlines content) + 1"
proof -
  from assms obtain a b where
    tc: "tc = take (b - a) (drop a content)" and
    base: "base = int (Count_newlines (take a content)) + 1"
    by (auto simp: extract_section_def split: option.splits)
  have "content = take a content @ drop a content"
    by (simp only: append_take_drop_id)
  moreover have "drop a content = tc @ drop (b - a) (drop a content)"
    unfolding tc by (simp only: append_take_drop_id)
  ultimately have "content = take a content @ tc @ drop (b - a) (drop a content)"
    by metis
  then have "Count_newlines content =
      Count_newlines (take a content) + Count_newlines tc + Count_newlines (drop (b - a) (drop a content))"
    by (metis Count_newlines_append add.assoc)
  with base show ?thesis by simp
qed

text \<open>A match of the Vue parser comes from one of its two passes, run on a non-empty region.\<close>

lemma VueParser_Parse_set:
  assumes "VueParser_Parse U c p = Inr ms" and "m \<in> set ms"
  shows "(fst (extractTemplateSection c) \<noteq> [] \<and>
          m \<in> set (parseTemplateComponents U (fst (extractTemplateSection c)) p (snd (extractTemplateSection c)))) \<or>
         (fst (extractScriptSection c) \<noteq> [] \<and>
          m \<in> set (parseJSXComponents (fst (extractScriptSection c)) p (snd (extractScriptSection c))))"
  using assms by (auto simp: VueParser_Parse_def Let_def split: prod.splits if_splits)

text \<open>A line of a region is a line of the file.\<close>

lemma pass_line_bound:
  assumes "extract_section opening closing content = (tc, base)" and "tc \<noteq> []"
    and "j < length (Split_lines tc)"
  shows "1 \<le> base + int j \<and> base + int j \<le> int (length (Split_lines content))"
proof -
  from extract_section_lines [OF assms(1,2)]
  have "1 \<le> base" and "base + int (Count_newlines tc) \<le> int (Count_newlines content) + 1" by simp_all
  moreover from assms(3) have "int j \<le> int (Count_newlines tc)" by (simp add: length_Split_lines)
  ultimately show ?thesis by (simp add: length_Split_lines)
qed

lemma VueParser_Parse_line:
  assumes "VueParser_Parse U c p = Inr ms" and "m \<in> set ms"
  shows "1 \<le> Line m \<and> Line m \<le> int (length (Split_lines c))"
proof -
  from VueParser_Parse_set [OF assms] show ?thesis
  proof
    assume a: "fst (extractTemplateSection c) \<noteq> [] \<and>
          m \<in> set (parseTemplateComponents U (fst (extractTemplateSection c)) p (snd (extractTemplateSection c)))"
    then obtain j where j: "j < length (Split_lines (fst (extractTemplateSection c)))"
      and l: "Line m = snd (extractTemplateSection c) + int j"
      unfolding parseTemplateComponents_set by auto
    have "extract_section ''<template'' ''</template>'' c =
        (fst (extractTemplateSection c), snd (extractTemplateSection c))"
      by (simp add: extractTemplateSection_def)
    from pass_line_bound [OF this _ j] a l show ?thesis by simp
  next
    assume a: "fst (extractScriptSection c) \<noteq> [] \<and>
          m \<in> set (parseJSXComponents (fst (extractScriptSection c)) p (snd (extractScriptSection c)))"
    then obtain j where j: "j < length (Split_lines (fst (extractScriptSection c)))"
      and l: "Line m = snd (extractScriptSection c) + int j"
      unfolding parseJSXComponents_set by auto
    have "extract_section ''<script'' ''</script>'' c =
        (fst (extractScriptSection c), snd (extractScriptSection c))"
      by (simp add: extractScriptSection_def)
    from pass_line_bound [OF this _ j] a l show ?thesis by simp
  qed
qed

lemma ReactParser_Parse_line:
  assumes "ReactParser_Parse c p = Inr ms" and "m \<in> set ms"
  shows "1 \<le> Line m \<and> Line m \<le> int (length (Split_lines c))"
proof -
  from assms have "m \<in> set (parseReactJSXComponents c p 1)"
    by (auto simp: ReactParser_Parse_def)
  then obtain j where "j < length (Split_lines c)" and "Line m = 1 + int j"
    unfolding parseReactJSXComponents_set by auto
  then show ?thesis by simp
qed

text \<open>A React file that starts with the line \<open><Button>Click me</Button>\<close>.\<close>

lemma Button_first_line:
  "\<lparr>FilePath = p, Line = 1, ComponentName = ''Button'', ComponentType = ''''\<rparr>
     \<in> set (parseReactJSXComponents (''<Button>Click me</Button>'' @ newline # rest) p 1)"
proof -
  have "newline \<notin> set ''<Button>Click me</Button>''" by (simp add: newline_def)
  then have sp: "Split_lines (''<Button>Click me</Button>'' @ newline # rest) =
      ''<Button>Click me</Button>'' # Split_lines rest"
    by (rule Split_lines_first)
  have ft: "find_tags jsx_first jsx_rest ''<Button>Click me</Button>'' = [''Button'']"
    by code_simp
  have nth: "Split_lines (''<Button>Click me</Button>'' @ newline # rest) ! 0 = ''<Button>Click me</Button>''"
    unfolding sp by simp
  have len: "0 < length (Split_lines (''<Button>Click me</Button>'' @ newline # rest))"
    unfolding sp by simp
  have mem: "''Button'' \<in> set (find_tags jsx_first jsx_rest
           (Split_lines (''<Button>Click me</Button>'' @ newline # rest) ! 0))"
    unfolding nth ft by simp
  have "\<lparr>FilePath = p, Line = 1, ComponentName = ''Button'', ComponentType = ''''\<rparr> =
        \<lparr>FilePath = p, Line = 1 + int 0, ComponentName = ''Button'', ComponentType = ''''\<rparr>"
    by simp
  with len mem have "0 < length (Split_lines (''<Button>Click me</Button>'' @ newline # rest)) \<and>
        ''Button'' \<in> set (find_tags jsx_first jsx_rest
           (Split_lines (''<Button>Click me</Button>'' @ newline # rest) ! 0)) \<and>
        \<lparr>FilePath = p, Line = 1, ComponentName = ''Button'', ComponentType = ''''\<rparr> =
        \<lparr>FilePath = p, Line = 1 + int 0, ComponentName = ''Button'', ComponentType = ''''\<rparr>"
    by blast
  then show ?thesis unfolding parseReactJSXComponents_set by blast
qed

text \<open>
  The matches of a pass over a region, from the offsets of the region in the file; the
  matches of each parser.
\<close>

lemma Split_lines_Nil: "Split_lines [] = [[]]"
  by (subst Split_lines.simps) simp

lemma template_pass_section:
  "m \<in> set (parseTemplateComponents U (fst (extract_section opening closing content)) p
              (snd (extract_section opening closing content))) \<longleftrightarrow>
     (\<exists>a b j n. find_region opening closing 0 content = Some (a, b) \<and>
        j < length (Split_lines (take (b - a) (drop a content))) \<and>
        n \<in> set (find_tags template_first template_rest
                   (Split_lines (take (b - a) (drop a content)) ! j)) \<and>
        n \<notin> set htmlTags \<and>
        m = \<lparr>FilePath = p, Line = int (Count_newlines (take a content)) + 1 + int j,
              ComponentName = n, ComponentType = ''''\<rparr>)"
proof (cases "find_region opening closing 0 content")
  case None
  then show ?thesis
    by (simp add: extract_section_def parseTemplateComponents_set Split_lines_Nil)
next
  case (Some ab)
  obtain a b where ab: "ab = (a, b)" by (cases ab)
  with Some show ?thesis
    unfolding parseTemplateComponents_set isHTMLTag_iff
    by (simp add: extract_section_def) blast
qed

lemma jsx_pass_section:
  "m \<in> set (parseJSXComponents (fst (extract_section opening closing content)) p
              (snd (extract_section opening closing content))) \<longleftrightarrow>
     (\<exists>a b j n. find_region opening closing 0 content = Some (a, b) \<and>
        j < length (Split_lines (take (b - a) (drop a content))) \<and>
        n \<in> set (find_tags jsx_first jsx_rest
                   (Split_lines (take (b - a) (drop a content)) ! j)) \<and>
        m = \<lparr>FilePath = p, Line = int (Count_newlines (take a content)) + 1 + int j,
              ComponentName = n, ComponentType = ''''\<rparr>)"
proof (cases "find_region opening closing 0 content")
  case None
  then show ?thesis
    by (simp add: extract_section_def parseJSXComponents_set Split_lines_Nil)
next
  case (Some ab)
  obtain a b where ab: "ab = (a, b)" by (cases ab)
  with Some show ?thesis
    unfolding parseJSXComponents_set
    by (simp add: extract_section_def) blast
qed

lemma parseTemplateComponents_Nil: "parseTemplateComponents U [] p base = []"
  by (simp add: parseTemplateComponents_def Split_lines_Nil)

lemma parseJSXComponents_Nil: "parseJSXComponents [] p base = []"
  by (simp add: parseJSXComponents_def Split_lines_Nil)

lemma VueParser_Parse_eq:
  "VueParser_Parse U content p =
     Inr (parseTemplateComponents U (fst (extractTemplateSection content)) p
            (snd (extractTemplateSection content)) @
          parseJSXComponents (fst (extractScriptSection content)) p
            (snd (extractScriptSection content)))"
  by (simp add: VueParser_Parse_def Let_def parseTemplateComponents_Nil parseJSXComponents_Nil
        split: prod.splits)

lemma VueParser_Parse_matches:
  assumes "VueParser_Parse U content p = Inr ms"
  shows "m \<in> set ms \<longleftrightarrow>
     (\<exists>a b j n. find_region ''<template'' ''</template>'' 0 content = Some (a, b) \<and>
        j < length (Split_lines (take (b - a) (drop a content))) \<and>
        n \<in> set (find_tags template_first template_rest
                   (Split_lines (take (b - a) (drop a content)) ! j)) \<and>
        n \<notin> set htmlTags \<and>
        m = \<lparr>FilePath = p, Line = int (Count_newlines (take a content)) + 1 + int j,
              ComponentName = n, ComponentType = ''''\<rparr>) \<or>
     (\<exists>a b j n. find_region ''<script'' ''</script>'' 0 content = Some (a, b) \<and>
        j < length (Split_lines (take (b - a) (drop a content))) \<and>
        n \<in> set (find_tags jsx_first jsx_rest
                   (Split_lines (take (b - a) (drop a content)) ! j)) \<and>
        m = \<lparr>FilePath = p, Line = int (Count_newlines (take a content)) + 1 + int j,
              ComponentName = n, ComponentType = ''''\<rparr>)"
proof -
  from assms have "set ms =
      set (parseTemplateComponents U (fst (extractTemplateSection content)) p
            (snd (extractTemplateSection content))) \<union>
      set (parseJSXComponents (fst (extractScriptSection content)) p
            (snd (extractScriptSection content)))"
    unfolding VueParser_Parse_eq by auto
  then show ?thesis
    unfolding extractTemplateSection_def extractScriptSection_def
    by (simp only: Un_iff template_pass_section jsx_pass_section)
qed

lemma ReactParser_Parse_matches:
  assumes "ReactParser_Parse content p = Inr ms"
  shows "m \<in> set ms \<longleftrightarrow>
     (\<exists>j n. j < length (Split_lines content) \<and>
        n \<in> set (find_tags jsx_first jsx_rest (Split_lines content ! j)) \<and>
        m = \<lparr>FilePath = p, Line = 1 + int j, ComponentName = n, ComponentType = ''''\<rparr>)"
proof -
  from assms have "ms = parseReactJSXComponents content p 1"
    by (simp add: ReactParser_Parse_def)
  then have "set ms = set (parseReactJSXComponents content p 1)" by simp
  then show ?thesis unfolding parseReactJSXComponents_set by blast
qed

text \<open>
  Claim C6. For the Vue parser, a region found at the offsets \<open>(a, b)\<close> is the text
  between them and its line base is the number of newlines before \<open>a\<close> plus one; every
  match of a pass over a region is reported at the base plus the index of its line in the
  region, and its name is a candidate of that line. The React parser runs one pass over the
  whole file with base 1, so a file whose first line is \<open><Button>Click me</Button>\<close>
  has the match \<open>Button\<close> at line 1. The matches returned by the Vue parser are exactly
  the candidates of the lines of its template region that are not HTML tags and the
  candidates of the lines of its script region, each at the base of its region plus the
  index of its line; those of the React parser are exactly the candidates of the lines of
  the file, at one plus the index. Every line number reported by either parser is at least
  1 and at most the number of lines of the file.
\<close>

theorem line_attribution:
  "(find_region ''<template'' ''</template>'' 0 content = Some (a, b) \<longrightarrow>
      a \<le> b \<and> b \<le> length content \<and>
      extractTemplateSection content =
        (take (b - a) (drop a content), int (Count_newlines (take a content)) + 1)) \<and>
   (find_region ''<script'' ''</script>'' 0 content = Some (a, b) \<longrightarrow>
      a \<le> b \<and> b \<le> length content \<and>
      extractScriptSection content =
        (take (b - a) (drop a content), int (Count_newlines (take a content)) + 1)) \<and>
   (m \<in> set (parseTemplateComponents U region p base) \<longrightarrow>
      (\<exists>j. j < length (Split_lines region) \<and> Line m = base + int j \<and>
           ComponentName m \<in> set (find_tags template_first template_rest (Split_lines region ! j)))) \<and>
   (m \<in> set (parseJSXComponents region p base) \<longrightarrow>
      (\<exists>j. j < length (Split_lines region) \<and> Line m = base + int j \<and>
           ComponentName m \<in> set (find_tags jsx_first jsx_rest (Split_lines region ! j)))) \<and>
   ReactParser_Parse content p = Inr (parseReactJSXComponents content p 1) \<and>
   (m \<in> set (parseReactJSXComponents content p 1) \<longrightarrow>
      (\<exists>j. j < length (Split_lines content) \<and> Line m = 1 + int j \<and>
           ComponentName m \<in> set (find_tags jsx_first jsx_rest (Split_lines content ! j)))) \<and>
   \<lparr>FilePath = p, Line = 1, ComponentName = ''Button'', ComponentType = ''''\<rparr>
     \<in> set (parseReactJSXComponents (''<Button>Click me</Button>'' @ newline # rest) p 1) \<and>
   ReactParser_Parse ''<Button>Click me</Button>'' p =
     Inr [\<lparr>FilePath = p, Line = 1, ComponentName = ''Button'', ComponentType = ''''\<rparr>] \<and>
   (VueParser_Parse U content p = Inr ms \<longrightarrow>
      (m \<in> set ms \<longleftrightarrow>
         (\<exists>a b j n. find_region ''<template'' ''</template>'' 0 content = Some (a, b) \<and>
            j < length (Split_lines (take (b - a) (drop a content))) \<and>
            n \<in> set (find_tags template_first template_rest
                       (Split_lines (take (b - a) (drop a content)) ! j)) \<and>
            n \<notin> set htmlTags \<and>
            m = \<lparr>FilePath = p, Line = int (Count_newlines (take a content)) + 1 + int j,
                  ComponentName = n, ComponentType = ''''\<rparr>) \<or>
         (\<exists>a b j n. find_region ''<script'' ''</script>'' 0 content = Some (a, b) \<and>
            j < length (Split_lines (take (b - a) (drop a content))) \<and>
            n \<in> set (find_tags jsx_first jsx_rest
                       (Split_lines (take (b - a) (drop a content)) ! j)) \<and>
            m = \<lparr>FilePath = p, Line = int (Count_newlines (take a content)) + 1 + int j,
                  ComponentName = n, ComponentType = ''''\<rparr>))) \<and>
   (ReactParser_Parse content p = Inr ms \<longrightarrow>
      (m \<in> set ms \<longleftrightarrow>
         (\<exists>j n. j < length (Split_lines content) \<and>
            n \<in> set (find_tags jsx_first jsx_rest (Split_lines content ! j)) \<and>
            m = \<lparr>FilePath = p, Line = 1 + int j, ComponentName = n, ComponentType = ''''\<rparr>))) \<and>
   (VueParser_Parse U content p = Inr ms \<and> m \<in> set ms \<longrightarrow>
      1 \<le> Line m \<and> Line m \<le> int (length (Split_lines content))) \<and>
   (ReactParser_Parse content p = Inr ms \<and> m \<in> set ms \<longrightarrow>
      1 \<le> Line m \<and> Line m \<le> int (length (Split_lines content)))"
proof -
  have t: "find_region ''<template'' ''</template>'' 0 content = Some (a, b) \<longrightarrow>
      a \<le> b \<and> b \<le> length content \<and>
      extractTemplateSection content =
        (take (b - a) (drop a content), int (Count_newlines (take a content)) + 1)"
    using find_region_bound [of "''<template''" "''</template>''" 0 content a b]
    by (simp add: extractTemplateSection_def extract_section_def)
  have s: "find_region ''<script'' ''</script>'' 0 content = Some (a, b) \<longrightarrow>
      a \<le> b \<and> b \<le> length content \<and>
      extractScriptSection content =
        (take (b - a) (drop a content), int (Count_newlines (take a content)) + 1)"
    using find_region_bound [of "''<script''" "''</script>''" 0 content a b]
    by (simp add: extractScriptSection_def extract_section_def)
  have pt: "m \<in> set (parseTemplateComponents U region p base) \<longrightarrow>
      (\<exists>j. j < length (Split_lines region) \<and> Line m = base + int j \<and>
           ComponentName m \<in> set (find_tags template_first template_rest (Split_lines region ! j)))"
    unfolding parseTemplateComponents_set by auto
  have pj: "m \<in> set (parseJSXComponents region p base) \<longrightarrow>
      (\<exists>j. j < length (Split_lines region) \<and> Line m = base + int j \<and>
           ComponentName m \<in> set (find_tags jsx_first jsx_rest (Split_lines region ! j)))"
    unfolding parseJSXComponents_set by auto
  have r: "ReactParser_Parse content p = Inr (parseReactJSXComponents content p 1)"
    by (simp add: ReactParser_Parse_def)
  have pr: "m \<in> set (parseReactJSXComponents content p 1) \<longrightarrow>
      (\<exists>j. j < length (Split_lines content) \<and> Line m = 1 + int j \<and>
           ComponentName m \<in> set (find_tags jsx_first jsx_rest (Split_lines content ! j)))"
    unfolding parseReactJSXComponents_set by auto
  have b1: "\<lparr>FilePath = p, Line = 1, ComponentName = ''Button'', ComponentType = ''''\<rparr>
     \<in> set (parseReactJSXComponents (''<Button>Click me</Button>'' @ newline # rest) p 1)"
    by (rule Button_first_line)
  have b2: "ReactParser_Parse ''<Button>Click me</Button>'' p =
     Inr [\<lparr>FilePath = p, Line = 1, ComponentName = ''Button'', ComponentType = ''''\<rparr>]"
    by code_simp
  have vm: "(VueParser_Parse U content p = Inr ms \<longrightarrow>
        (m \<in> set ms \<longleftrightarrow>
           (\<exists>a b j n. find_region ''<template'' ''</template>'' 0 content = Some (a, b) \<and>
              j < length (Split_lines (take (b - a) (drop a content))) \<and>
              n \<in> set (find_tags template_first template_rest
                         (Split_lines (take (b - a) (drop a content)) ! j)) \<and>
              n \<notin> set htmlTags \<and>
              m = \<lparr>FilePath = p, Line = int (Count_newlines (take a content)) + 1 + int j,
                    ComponentName = n, ComponentType = ''''\<rparr>) \<or>
           (\<exists>a b j n. find_region ''<script'' ''</script>'' 0 content = Some (a, b) \<and>
              j < length (Split_lines (take (b - a) (drop a content))) \<and>
              n \<in> set (find_tags jsx_first jsx_rest
                         (Split_lines (take (b - a) (drop a content)) ! j)) \<and>
              m = \<lparr>FilePath = p, Line = int (Count_newlines (take a content)) + 1 + int j,
                    ComponentName = n, ComponentType = ''''\<rparr>)))"
    using VueParser_Parse_matches [of U content p ms m] by blast
  have rm: "(ReactParser_Parse content p = Inr ms \<longrightarrow>
        (m \<in> set ms \<longleftrightarrow>
           (\<exists>j n. j < length (Split_lines content) \<and>
              n \<in> set (find_tags jsx_first jsx_rest (Split_lines content ! j)) \<and>
              m = \<lparr>FilePath = p, Line = 1 + int j, ComponentName = n, ComponentType = ''''\<rparr>)))"
    using ReactParser_Parse_matches [of content p ms m] by blast
  have v: "VueParser_Parse U content p = Inr ms \<and> m \<in> set ms \<longrightarrow>
      1 \<le> Line m \<and> Line m \<le> int (length (Split_lines content))"
    using VueParser_Parse_line [of U content p ms m] by blast
  have rl: "ReactParser_Parse content p = Inr ms \<and> m \<in> set ms \<longrightarrow>
      1 \<le> Line m \<and> Line m \<le> int (length (Split_lines content))"
    using ReactParser_Parse_line [of content p ms m] by blast
  from t s pt pj r pr b1 b2 vm rm v rl show ?thesis by (intro conjI)
qed

text \<open>
  A Vue file with its template on lines 1 to 2 and its script on lines 2 to 3, and a React
  file with a component on its second line.
\<close>

theorem line_attribution_witness:
  "find_region ''<template'' ''</template>'' 0 (''<template>'' @ newline # ''<q-form/></template><script>'' @ newline # ''<Foo/></script>'') = Some (10, 20) \<and>
   10 \<le> (20::nat) \<and> 20 \<le> length (''<template>'' @ newline # ''<q-form/></template><script>'' @ newline # ''<Foo/></script>'') \<and>
   extractTemplateSection (''<template>'' @ newline # ''<q-form/></template><script>'' @ newline # ''<Foo/></script>'') =
     (take (20 - 10) (drop 10 (''<template>'' @ newline # ''<q-form/></template><script>'' @ newline # ''<Foo/></script>'')), int (Count_newlines (take 10 (''<template>'' @ newline # ''<q-form/></template><script>'' @ newline # ''<Foo/></script>''))) + 1) \<and>
   find_region ''<script'' ''</script>'' 0 (''<template>'' @ newline # ''<q-form/></template><script>'' @ newline # ''<Foo/></script>'') = Some (39, 46) \<and>
   39 \<le> (46::nat) \<and> 46 \<le> length (''<template>'' @ newline # ''<q-form/></template><script>'' @ newline # ''<Foo/></script>'') \<and>
   extractScriptSection (''<template>'' @ newline # ''<q-form/></template><script>'' @ newline # ''<Foo/></script>'') =
     (take (46 - 39) (drop 39 (''<template>'' @ newline # ''<q-form/></template><script>'' @ newline # ''<Foo/></script>'')), int (Count_newlines (take 39 (''<template>'' @ newline # ''<q-form/></template><script>'' @ newline # ''<Foo/></script>''))) + 1) \<and>
   VueParser_Parse example_tables (''<template>'' @ newline # ''<q-form/></template><script>'' @ newline # ''<Foo/></script>'') ''a.vue'' =
     Inr [\<lparr>FilePath = ''a.vue'', Line = 2, ComponentName = ''q-form'', ComponentType = ''''\<rparr>,
          \<lparr>FilePath = ''a.vue'', Line = 3, ComponentName = ''Foo'', ComponentType = ''''\<rparr>] \<and>
   1 \<le> Line \<lparr>FilePath = ''a.vue'', Line = 2, ComponentName = ''q-form'', ComponentType = ''''\<rparr> \<and>
   Line \<lparr>FilePath = ''a.vue'', Line = 2, ComponentName = ''q-form'', ComponentType = ''''\<rparr> \<le> int (length (Split_lines (''<template>'' @ newline # ''<q-form/></template><script>'' @ newline # ''<Foo/></script>''))) \<and>
   \<lparr>FilePath = ''a.vue'', Line = 2, ComponentName = ''q-form'', ComponentType = ''''\<rparr>
     \<in> set (parseTemplateComponents example_tables (newline # ''<q-form/>'') ''a.vue'' 1) \<and>
   (\<exists>j. j < length (Split_lines (newline # ''<q-form/>'')) \<and> Line \<lparr>FilePath = ''a.vue'', Line = 2, ComponentName = ''q-form'', ComponentType = ''''\<rparr> = 1 + int j \<and>
      ComponentName \<lparr>FilePath = ''a.vue'', Line = 2, ComponentName = ''q-form'', ComponentType = ''''\<rparr> \<in> set (find_tags template_first template_rest (Split_lines (newline # ''<q-form/>'') ! j))) \<and>
   \<lparr>FilePath = ''a.vue'', Line = 3, ComponentName = ''Foo'', ComponentType = ''''\<rparr>
     \<in> set (parseJSXComponents (newline # ''<Foo/>'') ''a.vue'' 2) \<and>
   (\<exists>j. j < length (Split_lines (newline # ''<Foo/>'')) \<and> Line \<lparr>FilePath = ''a.vue'', Line = 3, ComponentName = ''Foo'', ComponentType = ''''\<rparr> = 2 + int j \<and>
      ComponentName \<lparr>FilePath = ''a.vue'', Line = 3, ComponentName = ''Foo'', ComponentType = ''''\<rparr> \<in> set (find_tags jsx_first jsx_rest (Split_lines (newline # ''<Foo/>'') ! j))) \<and>
   ReactParser_Parse (''const x = 1'' @ newline # ''<Card/>'') ''b.tsx'' =
     Inr [\<lparr>FilePath = ''b.tsx'', Line = 2, ComponentName = ''Card'', ComponentType = ''''\<rparr>] \<and>
   \<lparr>FilePath = ''b.tsx'', Line = 2, ComponentName = ''Card'', ComponentType = ''''\<rparr>
     \<in> set (parseReactJSXComponents (''const x = 1'' @ newline # ''<Card/>'') ''b.tsx'' 1) \<and>
   (\<exists>j. j < length (Split_lines (''const x = 1'' @ newline # ''<Card/>'')) \<and> Line \<lparr>FilePath = ''b.tsx'', Line = 2, ComponentName = ''Card'', ComponentType = ''''\<rparr> = 1 + int j \<and>
      ComponentName \<lparr>FilePath = ''b.tsx'', Line = 2, ComponentName = ''Card'', ComponentType = ''''\<rparr> \<in> set (find_tags jsx_first jsx_rest (Split_lines (''const x = 1'' @ newline # ''<Card/>'') ! j))) \<and>
   1 \<le> Line \<lparr>FilePath = ''b.tsx'', Line = 2, ComponentName = ''Card'', ComponentType = ''''\<rparr> \<and>
   Line \<lparr>FilePath = ''b.tsx'', Line = 2, ComponentName = ''Card'', ComponentType = ''''\<rparr> \<le> int (length (Split_lines (''const x = 1'' @ newline # ''<Card/>''))) \<and>
   ((\<exists>a b j n. find_region ''<template'' ''</template>'' 0 (''<template>'' @ newline # ''<q-form/></template><script>'' @ newline # ''<Foo/></script>'') = Some (a, b) \<and>
      j < length (Split_lines (take (b - a) (drop a (''<template>'' @ newline # ''<q-form/></template><script>'' @ newline # ''<Foo/></script>'')))) \<and>
      n \<in> set (find_tags template_first template_rest
                 (Split_lines (take (b - a) (drop a (''<template>'' @ newline # ''<q-form/></template><script>'' @ newline # ''<Foo/></script>''))) ! j)) \<and>
      n \<notin> set htmlTags \<and>
      \<lparr>FilePath = ''a.vue'', Line = 2, ComponentName = ''q-form'', ComponentType = ''''\<rparr> = \<lparr>FilePath = ''a.vue'', Line = int (Count_newlines (take a (''<template>'' @ newline # ''<q-form/></template><script>'' @ newline # ''<Foo/></script>''))) + 1 + int j,
            ComponentName = n, ComponentType = ''''\<rparr>) \<or>
   (\<exists>a b j n. find_region ''<script'' ''</script>'' 0 (''<template>'' @ newline # ''<q-form/></template><script>'' @ newline # ''<Foo/></script>'') = Some (a, b) \<and>
      j < length (Split_lines (take (b - a) (drop a (''<template>'' @ newline # ''<q-form/></template><script>'' @ newline # ''<Foo/></script>'')))) \<and>
      n \<in> set (find_tags jsx_first jsx_rest
                 (Split_lines (take (b - a) (drop a (''<template>'' @ newline # ''<q-form/></template><script>'' @ newline # ''<Foo/></script>''))) ! j)) \<and>
      \<lparr>FilePath = ''a.vue'', Line = 2, ComponentName = ''q-form'', ComponentType = ''''\<rparr> = \<lparr>FilePath = ''a.vue'', Line = int (Count_newlines (take a (''<template>'' @ newline # ''<q-form/></template><script>'' @ newline # ''<Foo/></script>''))) + 1 + int j,
            ComponentName = n, ComponentType = ''''\<rparr>)) \<and>
   (\<exists>j n. j < length (Split_lines (''const x = 1'' @ newline # ''<Card/>'')) \<and>
      n \<in> set (find_tags jsx_first jsx_rest (Split_lines (''const x = 1'' @ newline # ''<Card/>'') ! j)) \<and>
      \<lparr>FilePath = ''b.tsx'', Line = 2, ComponentName = ''Card'', ComponentType = ''''\<rparr> = \<lparr>FilePath = ''b.tsx'', Line = 1 + int j, ComponentName = n, ComponentType = ''''\<rparr>)"
proof -
  note T1 = line_attribution [where U = example_tables and content = "''<template>'' @ newline # ''<q-form/></template><script>'' @ newline # ''<Foo/></script>''" and a = 10 and b = 20
      and m = "\<lparr>FilePath = ''a.vue'', Line = 2, ComponentName = ''q-form'', ComponentType = ''''\<rparr>" and region = "newline # ''<q-form/>''" and p = "''a.vue''" and base = 1
      and ms = "[\<lparr>FilePath = ''a.vue'', Line = 2, ComponentName = ''q-form'', ComponentType = ''''\<rparr>, \<lparr>FilePath = ''a.vue'', Line = 3, ComponentName = ''Foo'', ComponentType = ''''\<rparr>]"]
  note T2 = line_attribution [where U = example_tables and content = "''<template>'' @ newline # ''<q-form/></template><script>'' @ newline # ''<Foo/></script>''" and a = 39 and b = 46
      and m = "\<lparr>FilePath = ''a.vue'', Line = 3, ComponentName = ''Foo'', ComponentType = ''''\<rparr>" and region = "newline # ''<Foo/>''" and p = "''a.vue''" and base = 2]
  note T3 = line_attribution [where U = example_tables and content = "''const x = 1'' @ newline # ''<Card/>''"
      and m = "\<lparr>FilePath = ''b.tsx'', Line = 2, ComponentName = ''Card'', ComponentType = ''''\<rparr>" and p = "''b.tsx''" and ms = "[\<lparr>FilePath = ''b.tsx'', Line = 2, ComponentName = ''Card'', ComponentType = ''''\<rparr>]"]
  have ft: "find_region ''<template'' ''</template>'' 0 (''<template>'' @ newline # ''<q-form/></template><script>'' @ newline # ''<Foo/></script>'') = Some (10, 20)"
    by code_simp
  have fs: "find_region ''<script'' ''</script>'' 0 (''<template>'' @ newline # ''<q-form/></template><script>'' @ newline # ''<Foo/></script>'') = Some (39, 46)"
    by code_simp
  have vp: "VueParser_Parse example_tables (''<template>'' @ newline # ''<q-form/></template><script>'' @ newline # ''<Foo/></script>'') ''a.vue'' =
       Inr [\<lparr>FilePath = ''a.vue'', Line = 2, ComponentName = ''q-form'', ComponentType = ''''\<rparr>,
            \<lparr>FilePath = ''a.vue'', Line = 3, ComponentName = ''Foo'', ComponentType = ''''\<rparr>]"
    by code_simp
  have mt: "\<lparr>FilePath = ''a.vue'', Line = 2, ComponentName = ''q-form'', ComponentType = ''''\<rparr>
       \<in> set (parseTemplateComponents example_tables (newline # ''<q-form/>'') ''a.vue'' 1)"
    by code_simp
  have mj: "\<lparr>FilePath = ''a.vue'', Line = 3, ComponentName = ''Foo'', ComponentType = ''''\<rparr>
       \<in> set (parseJSXComponents (newline # ''<Foo/>'') ''a.vue'' 2)"
    by code_simp
  have rp: "ReactParser_Parse (''const x = 1'' @ newline # ''<Card/>'') ''b.tsx'' =
       Inr [\<lparr>FilePath = ''b.tsx'', Line = 2, ComponentName = ''Card'', ComponentType = ''''\<rparr>]"
    by code_simp
  have mr: "\<lparr>FilePath = ''b.tsx'', Line = 2, ComponentName = ''Card'', ComponentType = ''''\<rparr>
       \<in> set (parseReactJSXComponents (''const x = 1'' @ newline # ''<Card/>'') ''b.tsx'' 1)"
    by code_simp
  have mv: "\<lparr>FilePath = ''a.vue'', Line = 2, ComponentName = ''q-form'', ComponentType = ''''\<rparr> \<in> set [\<lparr>FilePath = ''a.vue'', Line = 2, ComponentName = ''q-form'', ComponentType = ''''\<rparr>, \<lparr>FilePath = ''a.vue'', Line = 3, ComponentName = ''Foo'', ComponentType = ''''\<rparr>]" by simp
  have mc: "\<lparr>FilePath = ''b.tsx'', Line = 2, ComponentName = ''Card'', ComponentType = ''''\<rparr> \<in> set [\<lparr>FilePath = ''b.tsx'', Line = 2, ComponentName = ''Card'', ComponentType = ''''\<rparr>]" by simp
  have et: "10 \<le> (20::nat) \<and> 20 \<le> length (''<template>'' @ newline # ''<q-form/></template><script>'' @ newline # ''<Foo/></script>'') \<and>
     extractTemplateSection (''<template>'' @ newline # ''<q-form/></template><script>'' @ newline # ''<Foo/></script>'') =
       (take (20 - 10) (drop 10 (''<template>'' @ newline # ''<q-form/></template><script>'' @ newline # ''<Foo/></script>'')), int (Count_newlines (take 10 (''<template>'' @ newline # ''<q-form/></template><script>'' @ newline # ''<Foo/></script>''))) + 1)"
    by (rule T1 [THEN conjunct1, THEN mp, OF ft])
  have es: "39 \<le> (46::nat) \<and> 46 \<le> length (''<template>'' @ newline # ''<q-form/></template><script>'' @ newline # ''<Foo/></script>'') \<and>
     extractScriptSection (''<template>'' @ newline # ''<q-form/></template><script>'' @ newline # ''<Foo/></script>'') =
       (take (46 - 39) (drop 39 (''<template>'' @ newline # ''<q-form/></template><script>'' @ newline # ''<Foo/></script>'')), int (Count_newlines (take 39 (''<template>'' @ newline # ''<q-form/></template><script>'' @ newline # ''<Foo/></script>''))) + 1)"
    by (rule T2 [THEN conjunct2, THEN conjunct1, THEN mp, OF fs])
  have vl: "1 \<le> Line \<lparr>FilePath = ''a.vue'', Line = 2, ComponentName = ''q-form'', ComponentType = ''''\<rparr> \<and>
     Line \<lparr>FilePath = ''a.vue'', Line = 2, ComponentName = ''q-form'', ComponentType = ''''\<rparr> \<le> int (length (Split_lines (''<template>'' @ newline # ''<q-form/></template><script>'' @ newline # ''<Foo/></script>'')))"
    by (rule T1 [THEN conjunct2, THEN conjunct2, THEN conjunct2, THEN conjunct2, THEN
        conjunct2, THEN conjunct2, THEN conjunct2, THEN conjunct2, THEN conjunct2, THEN
        conjunct2, THEN conjunct1, THEN mp, OF conjI [OF vp mv]])
  have xt: "(\<exists>j. j < length (Split_lines (newline # ''<q-form/>'')) \<and> Line \<lparr>FilePath = ''a.vue'', Line = 2, ComponentName = ''q-form'', ComponentType = ''''\<rparr> = 1 + int j \<and>
        ComponentName \<lparr>FilePath = ''a.vue'', Line = 2, ComponentName = ''q-form'', ComponentType = ''''\<rparr> \<in> set (find_tags template_first template_rest (Split_lines (newline # ''<q-form/>'') ! j)))"
    by (rule T1 [THEN conjunct2, THEN conjunct2, THEN conjunct1, THEN mp, OF mt])
  have xj: "(\<exists>j. j < length (Split_lines (newline # ''<Foo/>'')) \<and> Line \<lparr>FilePath = ''a.vue'', Line = 3, ComponentName = ''Foo'', ComponentType = ''''\<rparr> = 2 + int j \<and>
        ComponentName \<lparr>FilePath = ''a.vue'', Line = 3, ComponentName = ''Foo'', ComponentType = ''''\<rparr> \<in> set (find_tags jsx_first jsx_rest (Split_lines (newline # ''<Foo/>'') ! j)))"
    by (rule T2 [THEN conjunct2, THEN conjunct2, THEN conjunct2, THEN conjunct1, THEN mp, OF mj])
  have xr: "(\<exists>j. j < length (Split_lines (''const x = 1'' @ newline # ''<Card/>'')) \<and> Line \<lparr>FilePath = ''b.tsx'', Line = 2, ComponentName = ''Card'', ComponentType = ''''\<rparr> = 1 + int j \<and>
        ComponentName \<lparr>FilePath = ''b.tsx'', Line = 2, ComponentName = ''Card'', ComponentType = ''''\<rparr> \<in> set (find_tags jsx_first jsx_rest (Split_lines (''const x = 1'' @ newline # ''<Card/>'') ! j)))"
    by (rule T3 [THEN conjunct2, THEN conjunct2, THEN conjunct2, THEN conjunct2, THEN
        conjunct2, THEN conjunct1, THEN mp, OF mr])
  have rl: "1 \<le> Line \<lparr>FilePath = ''b.tsx'', Line = 2, ComponentName = ''Card'', ComponentType = ''''\<rparr> \<and>
     Line \<lparr>FilePath = ''b.tsx'', Line = 2, ComponentName = ''Card'', ComponentType = ''''\<rparr> \<le> int (length (Split_lines (''const x = 1'' @ newline # ''<Card/>'')))"
    by (rule T3 [THEN conjunct2, THEN conjunct2, THEN conjunct2, THEN conjunct2, THEN
        conjunct2, THEN conjunct2, THEN conjunct2, THEN conjunct2, THEN conjunct2, THEN
        conjunct2, THEN conjunct2, THEN mp, OF conjI [OF rp mc]])
  have vx: "((\<exists>a b j n. find_region ''<template'' ''</template>'' 0 (''<template>'' @ newline # ''<q-form/></template><script>'' @ newline # ''<Foo/></script>'') = Some (a, b) \<and>
       j < length (Split_lines (take (b - a) (drop a (''<template>'' @ newline # ''<q-form/></template><script>'' @ newline # ''<Foo/></script>'')))) \<and>
       n \<in> set (find_tags template_first template_rest
                  (Split_lines (take (b - a) (drop a (''<template>'' @ newline # ''<q-form/></template><script>'' @ newline # ''<Foo/></script>''))) ! j)) \<and>
       n \<notin> set htmlTags \<and>
       \<lparr>FilePath = ''a.vue'', Line = 2, ComponentName = ''q-form'', ComponentType = ''''\<rparr> = \<lparr>FilePath = ''a.vue'', Line = int (Count_newlines (take a (''<template>'' @ newline # ''<q-form/></template><script>'' @ newline # ''<Foo/></script>''))) + 1 + int j,
             ComponentName = n, ComponentType = ''''\<rparr>) \<or>
    (\<exists>a b j n. find_region ''<script'' ''</script>'' 0 (''<template>'' @ newline # ''<q-form/></template><script>'' @ newline # ''<Foo/></script>'') = Some (a, b) \<and>
       j < length (Split_lines (take (b - a) (drop a (''<template>'' @ newline # ''<q-form/></template><script>'' @ newline # ''<Foo/></script>'')))) \<and>
       n \<in> set (find_tags jsx_first jsx_rest
                  (Split_lines (take (b - a) (drop a (''<template>'' @ newline # ''<q-form/></template><script>'' @ newline # ''<Foo/></script>''))) ! j)) \<and>
       \<lparr>FilePath = ''a.vue'', Line = 2, ComponentName = ''q-form'', ComponentType = ''''\<rparr> = \<lparr>FilePath = ''a.vue'', Line = int (Count_newlines (take a (''<template>'' @ newline # ''<q-form/></template><script>'' @ newline # ''<Foo/></script>''))) + 1 + int j,
             ComponentName = n, ComponentType = ''''\<rparr>))"
    by (rule T1 [THEN conjunct2, THEN conjunct2, THEN conjunct2, THEN conjunct2, THEN conjunct2,
        THEN conjunct2, THEN conjunct2, THEN conjunct2, THEN conjunct1, THEN mp, OF vp,
        THEN iffD1, OF mv])
  have rx: "(\<exists>j n. j < length (Split_lines (''const x = 1'' @ newline # ''<Card/>'')) \<and>
       n \<in> set (find_tags jsx_first jsx_rest (Split_lines (''const x = 1'' @ newline # ''<Card/>'') ! j)) \<and>
       \<lparr>FilePath = ''b.tsx'', Line = 2, ComponentName = ''Card'', ComponentType = ''''\<rparr> = \<lparr>FilePath = ''b.tsx'', Line = 1 + int j, ComponentName = n, ComponentType = ''''\<rparr>)"
    by (rule T3 [THEN conjunct2, THEN conjunct2, THEN conjunct2, THEN conjunct2, THEN conjunct2,
        THEN conjunct2, THEN conjunct2, THEN conjunct2, THEN conjunct2, THEN conjunct1, THEN mp,
        OF rp, THEN iffD1, OF mc])
  show ?thesis
    apply (intro conjI)
    apply (rule ft)
    apply (rule et [THEN conjunct1])
    apply (rule et [THEN conjunct2, THEN conjunct1])
    apply (rule et [THEN conjunct2, THEN conjunct2])
    apply (rule fs)
    apply (rule es [THEN conjunct1])
    apply (rule es [THEN conjunct2, THEN conjunct1])
    apply (rule es [THEN conjunct2, THEN conjunct2])
    apply (rule vp)
    apply (rule vl [THEN conjunct1])
    apply (rule vl [THEN conjunct2])
    apply (rule mt)
    apply (rule xt)
    apply (rule mj)
    apply (rule xj)
    apply (rule rp)
    apply (rule mr)
    apply (rule xr)
    apply (rule rl [THEN conjunct1])
    apply (rule rl [THEN conjunct2])
    apply (rule vx)
    apply (rule rx)
    done
qed

section \<open>Names that are never reported\<close>

text \<open>Filtering keeps the names; the names of both parsers are outside the denylist.\<close>

lemma filterByComponentType_name:
  assumes "m \<in> set (filterByComponentType U s raw ty)"
  shows "\<exists>m' \<in> set raw. ComponentName m = ComponentName m'"
proof -
  have "filterByComponentType U s raw ty =
     map (\<lambda>m. m\<lparr>ComponentType := ty\<rparr>)
       (filter (\<lambda>m. MatchesComponentType U (registry s) (ComponentName m) ty) raw)"
    by (simp add: filterByComponentType_def filter_loop_eq)
  with assms show ?thesis by auto
qed

lemma Vue_no_html:
  assumes "VueParser_Parse U c p = Inr ms" and "m \<in> set ms"
  shows "ComponentName m \<notin> set htmlTags"
proof -
  from VueParser_Parse_set [OF assms] show ?thesis
  proof
    assume "fst (extractTemplateSection c) \<noteq> [] \<and>
          m \<in> set (parseTemplateComponents U (fst (extractTemplateSection c)) p (snd (extractTemplateSection c)))"
    then show ?thesis
      unfolding parseTemplateComponents_set isHTMLTag_iff by auto
  next
    assume "fst (extractScriptSection c) \<noteq> [] \<and>
          m \<in> set (parseJSXComponents (fst (extractScriptSection c)) p (snd (extractScriptSection c)))"
    then show ?thesis
      unfolding parseJSXComponents_set by (auto dest: jsx_name_not_html)
  qed
qed

lemma React_no_html:
  assumes "ReactParser_Parse c p = Inr ms" and "m \<in> set ms"
  shows "ComponentName m \<notin> set htmlTags \<and> is_upper (hd (ComponentName m))"
proof -
  from assms have "m \<in> set (parseReactJSXComponents c p 1)"
    by (auto simp: ReactParser_Parse_def)
  then obtain j where "ComponentName m \<in> set (find_tags jsx_first jsx_rest (Split_lines c ! j))"
    unfolding parseReactJSXComponents_set by auto
  then show ?thesis
    using jsx_name_not_html find_tags_first [of "ComponentName m" jsx_first jsx_rest]
    by (auto simp: jsx_first_def)
qed

lemma scan_file_no_html:
  assumes "m \<in> set (scan_file U (NewComponentScanner [NewVueParser U, NewReactParser U] reg) ReadFile ty path)"
  shows "ComponentName m \<notin> set htmlTags"
proof -
  let ?s = "NewComponentScanner [NewVueParser U, NewReactParser U] reg"
  from assms obtain parser content raw where
    sel: "select_parser (parsers ?s) path = Some parser" and
    parse: "Parse parser content path = Inr raw" and
    m: "m \<in> set (filterByComponentType U ?s raw ty)"
  proof (cases "select_parser (parsers ?s) path")
    case None
    with assms show ?thesis by (simp add: scan_file_def)
  next
    case (Some parser)
    show ?thesis
    proof (cases "ReadFile path")
      case (Inl e)
      with assms Some show ?thesis by (simp add: scan_file_def)
    next
      case (Inr content)
      show ?thesis
      proof (cases "Parse parser content path")
        case (Inl e)
        with assms Some Inr show ?thesis by (simp add: scan_file_def)
      next
        case parsed: (Inr raw)
        with assms Some Inr have "m \<in> set (filterByComponentType U ?s raw ty)"
          by (simp add: scan_file_def)
        with Some parsed that show ?thesis by blast
      qed
    qed
  qed
  from filterByComponentType_name [OF m] obtain m' where
    m': "m' \<in> set raw" "ComponentName m = ComponentName m'" by blast
  from select_parser_mem [OF sel] have "parser = NewVueParser U \<or> parser = NewReactParser U"
    by (simp add: NewComponentScanner_def)
  then show ?thesis
  proof
    assume "parser = NewVueParser U"
    with parse have "VueParser_Parse U content path = Inr raw" by (simp add: NewVueParser_def)
    from Vue_no_html [OF this m'(1)] m'(2) show ?thesis by simp
  next
    assume "parser = NewReactParser U"
    with parse have "ReactParser_Parse content path = Inr raw" by (simp add: NewReactParser_def)
    from React_no_html [OF this m'(1)] m'(2) show ?thesis by simp
  qed
qed

text \<open>
  Claim C9. No match returned by the Vue parser or by the React parser has a name of the
  denylist: the template pass drops those names, and the names of the script pass and of
  the React parser start with an upper-case letter. So a scan with these two parsers never
  reports \<open>form\<close>, \<open>button\<close> or \<open>dialog\<close>, which are in the denylist, although the
  registry accepts each of them for the type of the same name.
\<close>

theorem no_html_element_reported:
  "(VueParser_Parse U c p = Inr ms \<and> m \<in> set ms \<longrightarrow> ComponentName m \<notin> set htmlTags) \<and>
   (ReactParser_Parse c p = Inr ms \<and> m \<in> set ms \<longrightarrow>
      ComponentName m \<notin> set htmlTags \<and> is_upper (hd (ComponentName m))) \<and>
   (m \<in> set (parseJSXComponents c p base) \<longrightarrow> is_upper (hd (ComponentName m))) \<and>
   (Scan U (NewComponentScanner [NewVueParser U, NewReactParser U] reg) ReadFile arrival elapsed files ty = Inr r \<and>
    m \<in> set (Matches r) \<longrightarrow> ComponentName m \<notin> set htmlTags) \<and>
   ''form'' \<in> set htmlTags \<and> ''button'' \<in> set htmlTags \<and> ''dialog'' \<in> set htmlTags \<and>
   MatchesComponentType U NewComponentMappingRegistry ''form'' ''form'' \<and>
   MatchesComponentType U NewComponentMappingRegistry ''button'' ''button'' \<and>
   MatchesComponentType U NewComponentMappingRegistry ''dialog'' ''dialog''"
proof -
  have v: "VueParser_Parse U c p = Inr ms \<and> m \<in> set ms \<longrightarrow> ComponentName m \<notin> set htmlTags"
    using Vue_no_html [of U c p ms m] by blast
  have r: "ReactParser_Parse c p = Inr ms \<and> m \<in> set ms \<longrightarrow>
      ComponentName m \<notin> set htmlTags \<and> is_upper (hd (ComponentName m))"
    using React_no_html [of c p ms m] by blast
  have j: "m \<in> set (parseJSXComponents c p base) \<longrightarrow> is_upper (hd (ComponentName m))"
    unfolding parseJSXComponents_set
    using find_tags_first [of _ jsx_first jsx_rest] by (auto simp: jsx_first_def)
  have s: "Scan U (NewComponentScanner [NewVueParser U, NewReactParser U] reg) ReadFile arrival elapsed files ty = Inr r \<and>
    m \<in> set (Matches r) \<longrightarrow> ComponentName m \<notin> set htmlTags"
    using scan_file_no_html [of m U reg ReadFile ty] by (auto simp: Scan_Matches)
  have h1: "''form'' \<in> set htmlTags" by code_simp
  have h2: "''button'' \<in> set htmlTags" by code_simp
  have h3: "''dialog'' \<in> set htmlTags" by code_simp
  have c1: "MatchesComponentType U NewComponentMappingRegistry ''form'' ''form''" by code_simp
  have c2: "MatchesComponentType U NewComponentMappingRegistry ''button'' ''button''" by code_simp
  have c3: "MatchesComponentType U NewComponentMappingRegistry ''dialog'' ''dialog''" by code_simp
  from v r j s h1 h2 h3 c1 c2 c3 show ?thesis by (intro conjI)
qed

text \<open>
  A template with \<open>form\<close> and \<open>button\<close> around a component, a React file, a script
  region, and a scan of the template for the type \<open>form\<close>.
\<close>

theorem no_html_element_reported_witness:
  "VueParser_Parse example_tables ''<template><form><q-form/><button/></form></template>'' ''a.vue'' =
     Inr [\<lparr>FilePath = ''a.vue'', Line = 1, ComponentName = ''q-form'', ComponentType = ''''\<rparr>] \<and>
   ComponentName \<lparr>FilePath = ''a.vue'', Line = 1, ComponentName = ''q-form'', ComponentType = ''''\<rparr> \<notin> set htmlTags \<and>
   ReactParser_Parse ''<div><Button/></div>'' ''b.tsx'' =
     Inr [\<lparr>FilePath = ''b.tsx'', Line = 1, ComponentName = ''Button'', ComponentType = ''''\<rparr>] \<and>
   ComponentName \<lparr>FilePath = ''b.tsx'', Line = 1, ComponentName = ''Button'', ComponentType = ''''\<rparr> \<notin> set htmlTags \<and>
   is_upper (hd (ComponentName \<lparr>FilePath = ''b.tsx'', Line = 1, ComponentName = ''Button'', ComponentType = ''''\<rparr>)) \<and>
   \<lparr>FilePath = ''a.vue'', Line = 3, ComponentName = ''Foo'', ComponentType = ''''\<rparr>
     \<in> set (parseJSXComponents ''<Foo><form>'' ''a.vue'' 3) \<and>
   is_upper (hd (ComponentName \<lparr>FilePath = ''a.vue'', Line = 3, ComponentName = ''Foo'', ComponentType = ''''\<rparr>)) \<and>
   Scan example_tables (NewComponentScanner [NewVueParser example_tables, NewReactParser example_tables] NewComponentMappingRegistry)
     (\<lambda>path. Inr ''<template><form><q-form/><button/></form></template>'') [''a.vue''] 1 [''a.vue''] ''form'' =
     Inr \<lparr>Matches = [\<lparr>FilePath = ''a.vue'', Line = 1, ComponentName = ''q-form'', ComponentType = ''form''\<rparr>],
          TotalCount = 1, ScanTimeMs = 1, ResultComponentType = ''form'', ScannedFiles = 1\<rparr> \<and>
   ComponentName \<lparr>FilePath = ''a.vue'', Line = 1, ComponentName = ''q-form'', ComponentType = ''form''\<rparr> \<notin> set htmlTags"
proof -
  note T1 = no_html_element_reported [where c = "''<template><form><q-form/><button/></form></template>''" and p = "''a.vue''"
      and ms = "[\<lparr>FilePath = ''a.vue'', Line = 1, ComponentName = ''q-form'', ComponentType = ''''\<rparr>]"
      and m = "\<lparr>FilePath = ''a.vue'', Line = 1, ComponentName = ''q-form'', ComponentType = ''''\<rparr>"]
  note T2 = no_html_element_reported [where c = "''<div><Button/></div>''" and p = "''b.tsx''"
      and ms = "[\<lparr>FilePath = ''b.tsx'', Line = 1, ComponentName = ''Button'', ComponentType = ''''\<rparr>]"
      and m = "\<lparr>FilePath = ''b.tsx'', Line = 1, ComponentName = ''Button'', ComponentType = ''''\<rparr>"]
  note T3 = no_html_element_reported [where c = "''<Foo><form>''" and p = "''a.vue''" and base = 3
      and m = "\<lparr>FilePath = ''a.vue'', Line = 3, ComponentName = ''Foo'', ComponentType = ''''\<rparr>"]
  note T4 = no_html_element_reported [where reg = NewComponentMappingRegistry
      and ReadFile = "\<lambda>path. Inr ''<template><form><q-form/><button/></form></template>''"
      and arrival = "[''a.vue'']" and elapsed = 1 and files = "[''a.vue'']" and ty = "''form''"
      and r = "\<lparr>Matches = [\<lparr>FilePath = ''a.vue'', Line = 1, ComponentName = ''q-form'', ComponentType = ''form''\<rparr>],
          TotalCount = 1, ScanTimeMs = 1, ResultComponentType = ''form'', ScannedFiles = 1\<rparr>"
      and m = "\<lparr>FilePath = ''a.vue'', Line = 1, ComponentName = ''q-form'', ComponentType = ''form''\<rparr>"]
  have vp: "VueParser_Parse example_tables ''<template><form><q-form/><button/></form></template>'' ''a.vue'' =
       Inr [\<lparr>FilePath = ''a.vue'', Line = 1, ComponentName = ''q-form'', ComponentType = ''''\<rparr>]"
    by code_simp
  have rp: "ReactParser_Parse ''<div><Button/></div>'' ''b.tsx'' =
       Inr [\<lparr>FilePath = ''b.tsx'', Line = 1, ComponentName = ''Button'', ComponentType = ''''\<rparr>]"
    by code_simp
  have mj: "\<lparr>FilePath = ''a.vue'', Line = 3, ComponentName = ''Foo'', ComponentType = ''''\<rparr>
       \<in> set (parseJSXComponents ''<Foo><form>'' ''a.vue'' 3)"
    by code_simp
  have sc: "Scan example_tables (NewComponentScanner [NewVueParser example_tables, NewReactParser example_tables] NewComponentMappingRegistry)
       (\<lambda>path. Inr ''<template><form><q-form/><button/></form></template>'') [''a.vue''] 1 [''a.vue''] ''form'' =
       Inr \<lparr>Matches = [\<lparr>FilePath = ''a.vue'', Line = 1, ComponentName = ''q-form'', ComponentType = ''form''\<rparr>],
            TotalCount = 1, ScanTimeMs = 1, ResultComponentType = ''form'', ScannedFiles = 1\<rparr>"
    by code_simp
  have m1: "\<lparr>FilePath = ''a.vue'', Line = 1, ComponentName = ''q-form'', ComponentType = ''''\<rparr> \<in> set [\<lparr>FilePath = ''a.vue'', Line = 1, ComponentName = ''q-form'', ComponentType = ''''\<rparr>]" by simp
  have m2: "\<lparr>FilePath = ''b.tsx'', Line = 1, ComponentName = ''Button'', ComponentType = ''''\<rparr> \<in> set [\<lparr>FilePath = ''b.tsx'', Line = 1, ComponentName = ''Button'', ComponentType = ''''\<rparr>]" by simp
  have m4: "\<lparr>FilePath = ''a.vue'', Line = 1, ComponentName = ''q-form'', ComponentType = ''form''\<rparr>
      \<in> set (Matches \<lparr>Matches = [\<lparr>FilePath = ''a.vue'', Line = 1, ComponentName = ''q-form'', ComponentType = ''form''\<rparr>],
          TotalCount = 1, ScanTimeMs = 1, ResultComponentType = ''form'', ScannedFiles = 1\<rparr>)" by simp
  from T1 vp m1
  have vn: "ComponentName \<lparr>FilePath = ''a.vue'', Line = 1, ComponentName = ''q-form'', ComponentType = ''''\<rparr> \<notin> set htmlTags"
    by blast
  from T2 rp m2
  have rn: "ComponentName \<lparr>FilePath = ''b.tsx'', Line = 1, ComponentName = ''Button'', ComponentType = ''''\<rparr> \<notin> set htmlTags \<and>
     is_upper (hd (ComponentName \<lparr>FilePath = ''b.tsx'', Line = 1, ComponentName = ''Button'', ComponentType = ''''\<rparr>))"
    by blast
  from T3 mj
  have jn: "is_upper (hd (ComponentName \<lparr>FilePath = ''a.vue'', Line = 3, ComponentName = ''Foo'', ComponentType = ''''\<rparr>))"
    by blast
  from T4 sc m4
  have sn: "ComponentName \<lparr>FilePath = ''a.vue'', Line = 1, ComponentName = ''q-form'', ComponentType = ''form''\<rparr> \<notin> set htmlTags"
    by blast
  show ?thesis
    apply (intro conjI)
    apply (rule vp)
    apply (rule vn)
    apply (rule rp)
    apply (rule rn [THEN conjunct1])
    apply (rule rn [THEN conjunct2])
    apply (rule mj)
    apply (rule jn)
    apply (rule sc)
    apply (rule sn)
    done
qed

end
